theory Spec2Isabelle
  imports Main
begin

section \<open>Go strings (byte sequences) and the library functions the code calls\<close>

text \<open>
  A Go \<^verbatim>\<open>string\<close> is a sequence of bytes; it is modelled as \<^typ>\<open>string\<close>, a list of
  8-bit characters. The functions of this section model the parts of Go's packages
  \<^verbatim>\<open>strings\<close> and \<^verbatim>\<open>path/filepath\<close> (on a Unix host) that \<^verbatim>\<open>git/git.go\<close> and
  \<^verbatim>\<open>main.go\<close> call.
\<close>

definition NL :: char where
  "NL = CHR 0x0A"

definition TAB :: char where
  "TAB = CHR 0x09"

definition PIPE :: char where
  "PIPE = CHR 0x7C"

definition SLASH :: char where
  "SLASH = CHR 0x2F"

text \<open>\<^verbatim>\<open>strings.HasPrefix(s, prefix)\<close> and \<^verbatim>\<open>strings.TrimPrefix(s, prefix)\<close>.\<close>

definition HasPrefix :: "string \<Rightarrow> string \<Rightarrow> bool" where
  "HasPrefix s p \<longleftrightarrow> take (length p) s = p"

definition TrimPrefix :: "string \<Rightarrow> string \<Rightarrow> string" where
  "TrimPrefix s p = (if HasPrefix s p then drop (length p) s else s)"

text \<open>
  \<^verbatim>\<open>strings.Split(s, sep)\<close> for a one-byte separator: the pieces of \<open>s\<close> between the
  occurrences of the separator, one more piece than there are separators; the empty
  string gives one empty piece.
\<close>

fun Split :: "string \<Rightarrow> char \<Rightarrow> string list" where
  "Split [] sep = [[]]"
| "Split (c # s) sep =
     (if c = sep then [] # Split s sep
      else (case Split s sep of
              [] \<Rightarrow> [[c]]
            | piece # pieces \<Rightarrow> (c # piece) # pieces))"

text \<open>\<^verbatim>\<open>strings.Join(elems, sep)\<close> for a one-byte separator.\<close>

fun Join :: "string list \<Rightarrow> char \<Rightarrow> string" where
  "Join [] sep = []"
| "Join [e] sep = e"
| "Join (e # es) sep = e @ sep # Join es sep"

text \<open>
  \<^verbatim>\<open>strings.TrimSpace(s)\<close> removes the leading and the trailing white space of \<open>s\<close>, as
  Unicode defines it (\<^verbatim>\<open>unicode.IsSpace\<close>), decoding \<open>s\<close> as UTF-8. \<open>space_runes\<close> lists
  the UTF-8 encodings of the white-space code points: U+0009 to U+000D, U+0020, U+0085,
  U+00A0, U+1680, U+2000 to U+200A, U+2028, U+2029, U+202F, U+205F and U+3000. A byte
  that starts no valid encoding decodes to U+FFFD, which is not white space, so trimming
  stops there.
\<close>

definition space_runes :: "string list" where
  "space_runes =
     [[CHR 0x09], [CHR 0x0A], [CHR 0x0B], [CHR 0x0C], [CHR 0x0D], [CHR 0x20],
      [CHR 0xC2, CHR 0x85], [CHR 0xC2, CHR 0xA0],
      [CHR 0xE1, CHR 0x9A, CHR 0x80],
      [CHR 0xE2, CHR 0x80, CHR 0x80], [CHR 0xE2, CHR 0x80, CHR 0x81],
      [CHR 0xE2, CHR 0x80, CHR 0x82], [CHR 0xE2, CHR 0x80, CHR 0x83],
      [CHR 0xE2, CHR 0x80, CHR 0x84], [CHR 0xE2, CHR 0x80, CHR 0x85],
      [CHR 0xE2, CHR 0x80, CHR 0x86], [CHR 0xE2, CHR 0x80, CHR 0x87],
      [CHR 0xE2, CHR 0x80, CHR 0x88], [CHR 0xE2, CHR 0x80, CHR 0x89],
      [CHR 0xE2, CHR 0x80, CHR 0x8A],
      [CHR 0xE2, CHR 0x80, CHR 0xA8], [CHR 0xE2, CHR 0x80, CHR 0xA9],
      [CHR 0xE2, CHR 0x80, CHR 0xAF],
      [CHR 0xE2, CHR 0x81, CHR 0x9F],
      [CHR 0xE3, CHR 0x80, CHR 0x80]]"

text \<open>
  \<open>strip_runes rs s\<close> removes from the front of \<open>s\<close> every leading occurrence of one of
  the byte sequences \<open>rs\<close>, until none is a prefix of what is left.
\<close>

function strip_runes :: "string list \<Rightarrow> string \<Rightarrow> string" where
  "strip_runes rs s =
     (case find (\<lambda>e. e \<noteq> [] \<and> HasPrefix s e) rs of
        None \<Rightarrow> s
      | Some e \<Rightarrow> strip_runes rs (drop (length e) s))"
  by pat_completeness auto
termination
proof (relation "measure (\<lambda>(rs, s). length s)")
  show "wf (measure (\<lambda>(rs, s). length s))" by simp
next
  fix rs :: "string list" and s e :: string
  assume "find (\<lambda>e. e \<noteq> [] \<and> HasPrefix s e) rs = Some e"
  then have "e \<noteq> []" and "take (length e) s = e"
    by (auto simp: find_Some_iff HasPrefix_def)
  then have "s \<noteq> []" by auto
  with \<open>e \<noteq> []\<close> show "((rs, drop (length e) s), (rs, s)) \<in> measure (\<lambda>(rs, s). length s)"
    by simp
qed

declare strip_runes.simps [simp del]

definition TrimLeftSpace :: "string \<Rightarrow> string" where
  "TrimLeftSpace s = strip_runes space_runes s"

definition TrimRightSpace :: "string \<Rightarrow> string" where
  "TrimRightSpace s = rev (strip_runes (map rev space_runes) (rev s))"

definition TrimSpace :: "string \<Rightarrow> string" where
  "TrimSpace s = TrimRightSpace (TrimLeftSpace s)"

text \<open>
  \<^verbatim>\<open>filepath.Clean(path)\<close> on Unix, where the separator is \<^verbatim>\<open>/\<close>: the shortest
  equivalent path. Empty elements and \<^verbatim>\<open>.\<close> elements are dropped; a \<^verbatim>\<open>..\<close> element
  removes the element before it when that is not \<^verbatim>\<open>..\<close> itself, is dropped at the
  root of a rooted path, and is kept otherwise; an empty result is \<^verbatim>\<open>.\<close>.
  \<open>clean_elems\<close> keeps the elements written so far as a stack, last element first.
\<close>

fun clean_elems :: "bool \<Rightarrow> string list \<Rightarrow> string list \<Rightarrow> string list" where
  "clean_elems rooted out [] = rev out"
| "clean_elems rooted out (e # es) =
     (if e = [] \<or> e = ''.'' then clean_elems rooted out es
      else if e = ''..'' then
        (case out of
           [] \<Rightarrow> if rooted then clean_elems rooted out es
                 else clean_elems rooted [''..''] es
         | e' # below \<Rightarrow>
             if e' = ''..'' then clean_elems rooted (''..'' # out) es
             else clean_elems rooted below es)
      else clean_elems rooted (e # out) es)"

definition Clean :: "string \<Rightarrow> string" where
  "Clean path =
     (if path = [] then ''.''
      else
        (let rooted = (hd path = SLASH);
             elems = clean_elems rooted [] (Split path SLASH)
         in if rooted then SLASH # Join elems SLASH
            else if elems = [] then ''.''
            else Join elems SLASH))"

text \<open>\<^verbatim>\<open>filepath.ToSlash\<close> replaces the separator by \<^verbatim>\<open>/\<close>: the identity on Unix.\<close>

definition ToSlash :: "string \<Rightarrow> string" where
  "ToSlash path = path"

section \<open>The external tool and \<^verbatim>\<open>Command\<close> (git/git.go)\<close>

text \<open>
  \<^verbatim>\<open>exec.Command("git", args...)\<close> run in a directory: the tool answers with the error
  of \<^verbatim>\<open>cmd.Run()\<close> (its message, when there is one) and the bytes it wrote to standard
  output and standard error. The world holds the tool's behaviour for the repository as
  it stands, and the list of the invocations made so far.
\<close>

record run_result =
  run_err :: "string option"
  run_stdout :: string
  run_stderr :: string

record world =
  git_tool :: "string \<Rightarrow> string list \<Rightarrow> run_result"
  calls :: "(string \<times> string list) list"

type_synonym error = string

definition Command :: "world \<Rightarrow> string \<Rightarrow> string list \<Rightarrow> (error + string) \<times> world" where
  "Command w repoPath args =
     (let r = git_tool w repoPath args;
          w' = w\<lparr>calls := calls w @ [(repoPath, args)]\<rparr>
      in case run_err r of
           Some err \<Rightarrow>
             if length (run_stderr r) > 0
             then (Inl (err @ '': '' @ TrimSpace (run_stderr r)), w')
             else (Inl err, w')
         | None \<Rightarrow> (Inr (TrimSpace (run_stdout r)), w'))"

section \<open>The data model (git/git.go)\<close>

record LogEntry =
  Hash :: string
  Author :: string
  Date :: string
  Subject :: string

record FileHistoryEntry = LogEntry +
  Path :: string

section \<open>\<^verbatim>\<open>GetLog\<close>\<close>

definition GetLog_args :: "string \<Rightarrow> string list" where
  "GetLog_args revision =
     [''log'', revision, ''--pretty=format:%H|%an|%ad|%s'', ''--date=short'', ''-n'', ''20'']"

text \<open>The body of the loop over the lines: a line with four fields appends an entry.\<close>

definition GetLog_line :: "LogEntry list \<Rightarrow> string \<Rightarrow> LogEntry list" where
  "GetLog_line entries line =
     (let parts = Split line PIPE
      in if length parts = 4
         then entries @ [\<lparr>Hash = parts ! 0, Author = parts ! 1,
                          Date = parts ! 2, Subject = parts ! 3\<rparr>]
         else entries)"

definition GetLog :: "world \<Rightarrow> string \<Rightarrow> string \<Rightarrow> (error + LogEntry list) \<times> world" where
  "GetLog w repoPath revision =
     (let revision' = (if revision = [] then ''HEAD'' else revision)
      in case Command w repoPath (GetLog_args revision') of
           (Inl err, w') \<Rightarrow> (Inl err, w')
         | (Inr out, w') \<Rightarrow>
             if out = [] then (Inr [], w')
             else (Inr (foldl GetLog_line [] (Split out NL)), w'))"

section \<open>\<^verbatim>\<open>GetFileHistory\<close>\<close>

definition GetFileHistory_args :: "string \<Rightarrow> string \<Rightarrow> string list" where
  "GetFileHistory_args revision path =
     [''log'', revision, ''--pretty=format:__GB__%H|%an|%ad|%s'', ''--date=short'',
      ''-n'', ''50'', ''--follow'', ''--name-status'', ''--'', path]"

text \<open>
  The variables the loop and its closure \<^verbatim>\<open>flush\<close> share: the entries appended so far,
  the pending entry (\<^verbatim>\<open>nil\<close> is \<open>None\<close>), the cursor \<^verbatim>\<open>currentPath\<close> and \<^verbatim>\<open>nextPath\<close>.
\<close>

record hist_state =
  entries :: "FileHistoryEntry list"
  current :: "FileHistoryEntry option"
  currentPath :: string
  nextPath :: string

definition flush :: "hist_state \<Rightarrow> hist_state" where
  "flush st =
     (case current st of
        None \<Rightarrow> st
      | Some cur \<Rightarrow>
          (let cur' = (if Path cur = [] then cur\<lparr>Path := currentPath st\<rparr> else cur)
           in st\<lparr>entries := entries st @ [cur'],
                 currentPath := (if nextPath st \<noteq> [] then nextPath st else currentPath st),
                 current := None,
                 nextPath := []\<rparr>))"

text \<open>The body of the loop over the lines of the tool's output.\<close>

definition GetFileHistory_line :: "hist_state \<Rightarrow> string \<Rightarrow> hist_state" where
  "GetFileHistory_line st line =
     (if HasPrefix line ''__GB__'' then
        (let st' = flush st;
             parts = Split (TrimPrefix line ''__GB__'') PIPE
         in if length parts = 4
            then st'\<lparr>current := Some \<lparr>Hash = parts ! 0, Author = parts ! 1,
                                        Date = parts ! 2, Subject = parts ! 3,
                                        Path = currentPath st'\<rparr>\<rparr>
            else st')
      else if current st = None \<or> TrimSpace line = [] then st
      else
        (let parts = Split line TAB
         in if length parts < 2 then st
            else
              (let status = parts ! 0
               in if HasPrefix status ''R'' \<and> length parts \<ge> 3 then
                    (let oldPath = parts ! 1; newPath = parts ! 2
                     in if newPath = currentPath st
                        then st\<lparr>current := map_option (\<lambda>cur. cur\<lparr>Path := newPath\<rparr>) (current st),
                                nextPath := oldPath\<rparr>
                        else st)
                  else
                    (let filePath = parts ! 1
                     in if filePath = currentPath st
                        then st\<lparr>current := map_option (\<lambda>cur. cur\<lparr>Path := filePath\<rparr>) (current st)\<rparr>
                        else st))))"

text \<open>
  The parser of \<^verbatim>\<open>GetFileHistory\<close>: from the (normalised) query path and the lines, the
  loop, the last \<^verbatim>\<open>flush\<close> and the entries.
\<close>

definition hist_init :: "string \<Rightarrow> hist_state" where
  "hist_init path = \<lparr>entries = [], current = None, currentPath = path, nextPath = []\<rparr>"

definition GetFileHistory_parse :: "string \<Rightarrow> string list \<Rightarrow> FileHistoryEntry list" where
  "GetFileHistory_parse path lines =
     entries (flush (foldl GetFileHistory_line (hist_init path) lines))"

definition GetFileHistory ::
  "world \<Rightarrow> string \<Rightarrow> string \<Rightarrow> string \<Rightarrow> (error + FileHistoryEntry list) \<times> world" where
  "GetFileHistory w repoPath revision path0 =
     (let revision' = (if revision = [] then ''HEAD'' else revision);
          path = TrimPrefix path0 ''/''
      in case Command w repoPath (GetFileHistory_args revision' path) of
           (Inl err, w') \<Rightarrow> (Inl err, w')
         | (Inr out, w') \<Rightarrow>
             if out = [] then (Inr [], w')
             else (Inr (GetFileHistory_parse path (Split out NL)), w'))"

section \<open>\<^verbatim>\<open>GetCommitFileDiff\<close>\<close>

definition GetCommitFileDiff ::
  "world \<Rightarrow> string \<Rightarrow> string \<Rightarrow> string \<Rightarrow> (error + string) \<times> world" where
  "GetCommitFileDiff w repoPath hash path =
     Command w repoPath [''show'', hash, ''--'', TrimPrefix path ''/'']"

section \<open>The path-at-commit resolver (\<^verbatim>\<open>fileDiffHandler\<close>, main.go)\<close>

text \<open>
  \<open>resolveDiffWithFallback\<close> is the part of \<^verbatim>\<open>fileDiffHandler\<close> between the
  normalisation of the path and the rendering: the fetch of the diff, and the fallback
  on an empty diff. A failed first fetch is the handler's \<^verbatim>\<open>http.Error\<close> and return:
  \<open>Inl\<close> of the message. Otherwise the result is the pair of \<^verbatim>\<open>diff\<close> and
  \<^verbatim>\<open>normalizedPath\<close> that the handler renders. The scan of the history stops at the
  first entry with the commit's hash and another path (\<^verbatim>\<open>break\<close>).
\<close>

definition resolveDiffWithFallback ::
  "world \<Rightarrow> string \<Rightarrow> string \<Rightarrow> string \<Rightarrow> (error + string \<times> string) \<times> world" where
  "resolveDiffWithFallback w repoPath hash normalizedPath =
     (case GetCommitFileDiff w repoPath hash normalizedPath of
        (Inl err, w1) \<Rightarrow> (Inl err, w1)
      | (Inr diff, w1) \<Rightarrow>
          if TrimSpace diff = [] then
            (case GetFileHistory w1 repoPath ''HEAD'' normalizedPath of
               (Inl historyErr, w2) \<Rightarrow> (Inr (diff, normalizedPath), w2)
             | (Inr history, w2) \<Rightarrow>
                 (case find (\<lambda>entry. Hash entry = hash \<and> Path entry \<noteq> normalizedPath) history of
                    None \<Rightarrow> (Inr (diff, normalizedPath), w2)
                  | Some entry \<Rightarrow>
                      (case GetCommitFileDiff w2 repoPath hash (Path entry) of
                         (Inl retryErr, w3) \<Rightarrow> (Inr (diff, normalizedPath), w3)
                       | (Inr retryDiff, w3) \<Rightarrow> (Inr (retryDiff, Path entry), w3))))
          else (Inr (diff, normalizedPath), w1))"

section \<open>\<^verbatim>\<open>normalizeRepoRelativePath\<close> (main.go)\<close>

definition normalizeRepoRelativePath :: "string \<Rightarrow> string \<Rightarrow> string \<times> bool" where
  "normalizeRepoRelativePath repoPath0 requestedPath =
     (let path = TrimPrefix (TrimSpace requestedPath) ''/''
      in if path = [] then ([], False)
         else
           (let repoPath = ToSlash (Clean repoPath0);
                withLeadingSlash = ''/'' @ path;
                path1 =
                  (if HasPrefix withLeadingSlash (repoPath @ ''/'')
                   then TrimPrefix withLeadingSlash (repoPath @ ''/'')
                   else
                     (let repoPathNoLeadingSlash = TrimPrefix repoPath ''/''
                      in if HasPrefix path (repoPathNoLeadingSlash @ ''/'')
                         then TrimPrefix path (repoPathNoLeadingSlash @ ''/'')
                         else path));
                path2 = TrimPrefix (ToSlash (Clean path1)) ''./''
            in if path2 = ''.'' \<or> path2 = [] \<or> HasPrefix path2 ''../''
               then ([], False)
               else (path2, True)))"

section \<open>Notions used to state the properties\<close>

text \<open>The world after one more invocation of the tool has been recorded.\<close>

definition logged :: "world \<Rightarrow> string \<Rightarrow> string list \<Rightarrow> world" where
  "logged w repoPath args = w\<lparr>calls := calls w @ [(repoPath, args)]\<rparr>"

text \<open>The embedded \<^verbatim>\<open>LogEntry\<close> of a \<^verbatim>\<open>FileHistoryEntry\<close>.\<close>

definition log_of :: "FileHistoryEntry \<Rightarrow> LogEntry" where
  "log_of e = \<lparr>Hash = Hash e, Author = Author e, Date = Date e, Subject = Subject e\<rparr>"

text \<open>
  The entry that a line of the history output opens when the cursor is \<open>p\<close>: a line with
  the marker prefix and four fields after it; any other line opens none.
\<close>

definition history_entry :: "string \<Rightarrow> string \<Rightarrow> FileHistoryEntry option" where
  "history_entry p line =
     (let parts = Split (TrimPrefix line ''__GB__'') PIPE
      in if HasPrefix line ''__GB__'' \<and> length parts = 4
         then Some \<lparr>Hash = parts ! 0, Author = parts ! 1, Date = parts ! 2,
                     Subject = parts ! 3, Path = p\<rparr>
         else None)"

text \<open>A status line that reports a rename to the name \<open>p\<close>.\<close>

definition renames_to :: "string \<Rightarrow> string \<Rightarrow> bool" where
  "renames_to line p \<longleftrightarrow>
     (let parts = Split line TAB
      in length parts \<ge> 3 \<and> HasPrefix (parts ! 0) ''R'' \<and> parts ! 2 = p)"

text \<open>The cursor once the lines have been read and the pending entry flushed.\<close>

definition cursor_after :: "string \<Rightarrow> string list \<Rightarrow> string" where
  "cursor_after path lines =
     currentPath (flush (foldl GetFileHistory_line (hist_init path) lines))"

text \<open>
  The \<^verbatim>\<open>LogEntry\<close> that a line of the history output opens: the four fields after the
  marker prefix.
\<close>

definition marker_log :: "string \<Rightarrow> LogEntry option" where
  "marker_log line =
     (let parts = Split (TrimPrefix line ''__GB__'') PIPE
      in if HasPrefix line ''__GB__'' \<and> length parts = 4
         then Some \<lparr>Hash = parts ! 0, Author = parts ! 1, Date = parts ! 2,
                     Subject = parts ! 3\<rparr>
         else None)"

text \<open>
  The pending entry as a list, and the invariant of the loop: a pending entry carries the
  cursor as its path, and \<^verbatim>\<open>nextPath\<close> is empty while no entry is pending.
\<close>

definition pending :: "hist_state \<Rightarrow> FileHistoryEntry list" where
  "pending st = (case current st of None \<Rightarrow> [] | Some cur \<Rightarrow> [cur])"

definition hist_inv :: "hist_state \<Rightarrow> bool" where
  "hist_inv st \<longleftrightarrow>
     (case current st of None \<Rightarrow> nextPath st = [] | Some cur \<Rightarrow> Path cur = currentPath st)"

text \<open>
  The entry that a line of the output of \<^verbatim>\<open>GetLog\<close> gives: a line with four fields; any
  other line gives none.
\<close>

definition log_line :: "string \<Rightarrow> LogEntry option" where
  "log_line line =
     (let parts = Split line PIPE
      in if length parts = 4
         then Some \<lparr>Hash = parts ! 0, Author = parts ! 1, Date = parts ! 2,
                     Subject = parts ! 3\<rparr>
         else None)"

section \<open>A repository with a renamed file\<close>

text \<open>
  The file \<^verbatim>\<open>a/f.kt\<close> is committed (v1, hash H1), modified (v2, hash H2) and moved to
  \<^verbatim>\<open>b/a/f.kt\<close> (v3, hash H3). \<open>scenario_tool failing\<close> answers as the tool does on
  this repository, and fails on the argument lists in \<open>failing\<close> and on every other
  invocation.
\<close>

definition scenario_lines :: "string list" where
  "scenario_lines =
     [''__GB__H3|Test User|2024-01-03|v3'',
      ''R100'' @ [TAB] @ ''a/f.kt'' @ [TAB] @ ''b/a/f.kt'',
      [],
      ''__GB__H2|Test User|2024-01-02|v2'',
      ''M'' @ [TAB] @ ''a/f.kt'',
      [],
      ''__GB__H1|Test User|2024-01-01|v1'',
      ''A'' @ [TAB] @ ''a/f.kt'']"

definition scenario_log_lines :: "string list" where
  "scenario_log_lines =
     [''H3|Test User|2024-01-03|v3'',
      ''H2|Test User|2024-01-02|v2'',
      ''H1|Test User|2024-01-01|v1'']"

definition tool_ok :: "string \<Rightarrow> run_result" where
  "tool_ok out = \<lparr>run_err = None, run_stdout = out, run_stderr = []\<rparr>"

definition tool_failure :: run_result where
  "tool_failure =
     \<lparr>run_err = Some ''exit status 128'', run_stdout = [],
      run_stderr = ''fatal: bad revision'' @ [NL]\<rparr>"

definition scenario_tool :: "string list list \<Rightarrow> string \<Rightarrow> string list \<Rightarrow> run_result" where
  "scenario_tool failing repoPath args =
     (if args \<in> set failing then tool_failure
      else if args = GetFileHistory_args ''HEAD'' ''b/a/f.kt''
        then tool_ok (Join scenario_lines NL @ [NL])
      else if args = GetFileHistory_args ''HEAD'' ''none.kt'' then tool_ok [NL]
      else if args = GetLog_args ''HEAD'' then tool_ok (Join scenario_log_lines NL @ [NL])
      else if args = [''show'', ''H2'', ''--'', ''b/a/f.kt''] then tool_ok []
      else if args = [''show'', ''H2'', ''--'', ''a/f.kt'']
        then tool_ok (''diff --git a/a/f.kt b/a/f.kt'' @ [NL])
      else if args = [''show'', ''H3'', ''--'', ''b/a/f.kt'']
        then tool_ok (''diff --git a/a/f.kt b/b/a/f.kt'' @ [NL])
      else tool_failure)"

definition scenario_world :: "string list list \<Rightarrow> world" where
  "scenario_world failing = \<lparr>git_tool = scenario_tool failing, calls = []\<rparr>"

definition entry_v3 :: FileHistoryEntry where
  "entry_v3 = \<lparr>Hash = ''H3'', Author = ''Test User'', Date = ''2024-01-03'', Subject = ''v3'',
               Path = ''b/a/f.kt''\<rparr>"

definition entry_v2 :: FileHistoryEntry where
  "entry_v2 = \<lparr>Hash = ''H2'', Author = ''Test User'', Date = ''2024-01-02'', Subject = ''v2'',
               Path = ''a/f.kt''\<rparr>"

definition entry_v1 :: FileHistoryEntry where
  "entry_v1 = \<lparr>Hash = ''H1'', Author = ''Test User'', Date = ''2024-01-01'', Subject = ''v1'',
               Path = ''a/f.kt''\<rparr>"

definition scenario_history :: "FileHistoryEntry list" where
  "scenario_history = [entry_v3, entry_v2, entry_v1]"

section \<open>A rename commit whose subject contains the separator\<close>

text \<open>
  \<open>output_world out\<close> is a repository on which the tool succeeds with the output \<open>out\<close>.
  \<open>piped_subject_lines\<close> is the history output of the repository of the last section when
  the subject of the commit that moves the file is \<^verbatim>\<open>move a|b\<close>;
  \<open>newer_commit_lines\<close> is the record of one more commit (v4, hash H4), which modifies
  \<^verbatim>\<open>b/a/f.kt\<close> after the move.
\<close>

definition output_world :: "string \<Rightarrow> world" where
  "output_world out = \<lparr>git_tool = (\<lambda>repoPath args. tool_ok out), calls = []\<rparr>"

definition piped_subject_lines :: "string list" where
  "piped_subject_lines =
     [''__GB__H3|Test User|2024-01-03|move a|b'',
      ''R100'' @ [TAB] @ ''a/f.kt'' @ [TAB] @ ''b/a/f.kt'',
      [],
      ''__GB__H2|Test User|2024-01-02|v2'',
      ''M'' @ [TAB] @ ''a/f.kt'',
      [],
      ''__GB__H1|Test User|2024-01-01|v1'',
      ''A'' @ [TAB] @ ''a/f.kt'']"

definition newer_commit_lines :: "string list" where
  "newer_commit_lines =
     [''__GB__H4|Test User|2024-01-04|v4'',
      ''M'' @ [TAB] @ ''b/a/f.kt'',
      []]"

definition entry_v4 :: FileHistoryEntry where
  "entry_v4 = \<lparr>Hash = ''H4'', Author = ''Test User'', Date = ''2024-01-04'', Subject = ''v4'',
               Path = ''b/a/f.kt''\<rparr>"

text \<open>
  \<open>piped_log_lines\<close> is an output of \<^verbatim>\<open>GetLog\<close> in which the subject of the second commit
  is \<^verbatim>\<open>a|b\<close>; \<open>short_status_lines\<close> is the history output of the last section with a
  line without a tab after the first marker.
\<close>

definition piped_log_lines :: "string list" where
  "piped_log_lines =
     [''H3|Test User|2024-01-03|v3'',
      ''H2|Test User|2024-01-02|a|b'',
      ''H1|Test User|2024-01-01|v1'']"

definition short_status_lines :: "string list" where
  "short_status_lines = take 1 scenario_lines @ [''no fields''] @ drop 1 scenario_lines"

section \<open>Evaluation on concrete strings\<close>

lemmas string_eval =
  HasPrefix_def TrimPrefix_def TrimSpace_def TrimLeftSpace_def TrimRightSpace_def
  strip_runes.simps space_runes_def NL_def TAB_def PIPE_def SLASH_def

lemma scenario_parse:
  "GetFileHistory_parse ''b/a/f.kt'' scenario_lines = scenario_history"
  by (simp add: GetFileHistory_parse_def scenario_lines_def scenario_history_def hist_init_def
      entry_v3_def entry_v2_def entry_v1_def GetFileHistory_line_def flush_def string_eval Let_def)

lemma scenario_output:
  "TrimSpace (Join scenario_lines NL @ [NL]) = Join scenario_lines NL"
  by (simp add: scenario_lines_def string_eval)

lemma scenario_output_nonempty:
  "Join scenario_lines NL \<noteq> []"
  by (simp add: scenario_lines_def)

lemma scenario_split:
  "Split (Join scenario_lines NL) NL = scenario_lines"
  by (simp add: scenario_lines_def string_eval)

lemma TrimSpace_Nil:
  "TrimSpace [] = []"
  by (simp add: string_eval)

lemma TrimSpace_diff3_nonempty:
  "TrimSpace ''diff --git a/a/f.kt b/b/a/f.kt'' \<noteq> []"
  by (simp add: string_eval)

lemma scenario_GetFileHistory:
  assumes "GetFileHistory_args ''HEAD'' ''b/a/f.kt'' \<notin> set failing"
  shows "fst (GetFileHistory (scenario_world failing) ''/repo'' ''HEAD'' ''b/a/f.kt'')
           = Inr scenario_history"
proof -
  have "Command (scenario_world failing) ''/repo'' (GetFileHistory_args ''HEAD'' ''b/a/f.kt'')
          = (Inr (Join scenario_lines NL),
             (scenario_world failing)\<lparr>calls := calls (scenario_world failing) @
                [(''/repo'', GetFileHistory_args ''HEAD'' ''b/a/f.kt'')]\<rparr>)"
    using assms
    by (simp add: Command_def scenario_world_def scenario_tool_def tool_ok_def scenario_output)
  then show ?thesis
    by (simp add: GetFileHistory_def TrimPrefix_def HasPrefix_def scenario_output_nonempty
        scenario_split scenario_parse)
qed

lemma scenario_show:
  shows "fst (GetCommitFileDiff (scenario_world failing) ''/repo'' ''H2'' ''b/a/f.kt'') =
           (if [''show'', ''H2'', ''--'', ''b/a/f.kt''] \<in> set failing
            then Inl ''exit status 128: fatal: bad revision'' else Inr [])"
    and "fst (GetCommitFileDiff (scenario_world failing) ''/repo'' ''H2'' ''a/f.kt'') =
           (if [''show'', ''H2'', ''--'', ''a/f.kt''] \<in> set failing
            then Inl ''exit status 128: fatal: bad revision''
            else Inr ''diff --git a/a/f.kt b/a/f.kt'')"
    and "fst (GetCommitFileDiff (scenario_world failing) ''/repo'' ''H3'' ''b/a/f.kt'') =
           (if [''show'', ''H3'', ''--'', ''b/a/f.kt''] \<in> set failing
            then Inl ''exit status 128: fatal: bad revision''
            else Inr ''diff --git a/a/f.kt b/b/a/f.kt'')"
  by (simp_all add: GetCommitFileDiff_def Command_def scenario_world_def scenario_tool_def
      tool_ok_def tool_failure_def GetFileHistory_args_def GetLog_args_def string_eval)

section \<open>White space and fields\<close>

lemma strip_runes_Nil:
  assumes "strip_runes rs s = []" and "s \<noteq> []"
  shows "\<exists>e\<in>set rs. e \<noteq> [] \<and> last s = last e"
  using assms
proof (induction rs s rule: strip_runes.induct)
  case (1 rs s)
  show ?case
  proof (cases "find (\<lambda>e. e \<noteq> [] \<and> HasPrefix s e) rs")
    case None
    with "1.prems" show ?thesis by (simp add: strip_runes.simps)
  next
    case (Some e)
    then have e: "e \<in> set rs" "e \<noteq> []" "take (length e) s = e"
      by (auto simp: find_Some_iff HasPrefix_def)
    from Some "1.prems" have strip: "strip_runes rs (drop (length e) s) = []"
      by (simp add: strip_runes.simps)
    show ?thesis
    proof (cases "drop (length e) s = []")
      case True
      with e(3) have "s = e" by (metis append_take_drop_id append_Nil2)
      with e show ?thesis by blast
    next
      case False
      from "1.IH"[OF Some strip False] obtain e' where "e' \<in> set rs" "e' \<noteq> []"
        "last (drop (length e) s) = last e'" by blast
      moreover have "last s = last (drop (length e) s)"
        using False by (metis append_take_drop_id last_appendR)
      ultimately show ?thesis by auto
    qed
  qed
qed

lemma strip_runes_no_prefix:
  "find (\<lambda>e. e \<noteq> [] \<and> HasPrefix s e) rs = None \<Longrightarrow> strip_runes rs s = s"
  by (simp add: strip_runes.simps)

lemma strip_runes_fixed:
  "find (\<lambda>e. e \<noteq> [] \<and> HasPrefix (strip_runes rs s) e) rs = None"
proof (induction rs s rule: strip_runes.induct)
  case (1 rs s)
  show ?case
  proof (cases "find (\<lambda>e. e \<noteq> [] \<and> HasPrefix s e) rs")
    case None
    then show ?thesis by (simp add: strip_runes.simps)
  next
    case (Some e)
    with "1.IH"[OF Some] show ?thesis by (simp add: strip_runes.simps)
  qed
qed

lemma strip_runes_suffix:
  "\<exists>front. s = front @ strip_runes rs s"
proof (induction rs s rule: strip_runes.induct)
  case (1 rs s)
  show ?case
  proof (cases "find (\<lambda>e. e \<noteq> [] \<and> HasPrefix s e) rs")
    case None
    then show ?thesis by (simp add: strip_runes.simps)
  next
    case (Some e)
    from "1.IH"[OF Some] obtain front where
      "drop (length e) s = front @ strip_runes rs (drop (length e) s)" by blast
    then have "s = (take (length e) s @ front) @ strip_runes rs (drop (length e) s)"
      by (metis append_assoc append_take_drop_id)
    with Some show ?thesis by (simp add: strip_runes.simps del: append_assoc) blast
  qed
qed

lemma strip_runes_idem:
  "strip_runes rs (strip_runes rs s) = strip_runes rs s"
  by (rule strip_runes_no_prefix) (rule strip_runes_fixed)

lemma HasPrefix_append:
  assumes "HasPrefix t e"
  shows "HasPrefix (t @ back) e"
proof -
  from assms have e: "take (length e) t = e" by (simp add: HasPrefix_def)
  then have "length (take (length e) t) = length e" by simp
  then have "length e \<le> length t" by simp
  then show ?thesis using e by (simp add: HasPrefix_def)
qed

lemma TrimSpace_idem:
  "TrimSpace (TrimSpace s) = TrimSpace s"
proof -
  let ?u = "TrimLeftSpace s"
  let ?t = "TrimRightSpace ?u"
  obtain front where "rev ?u = front @ strip_runes (map rev space_runes) (rev ?u)"
    using strip_runes_suffix by blast
  then have u: "?u = ?t @ rev front"
    unfolding TrimRightSpace_def by (metis rev_append rev_rev_ident)
  have "find (\<lambda>e. e \<noteq> [] \<and> HasPrefix ?t e) space_runes = None"
  proof (rule ccontr)
    assume "find (\<lambda>e. e \<noteq> [] \<and> HasPrefix ?t e) space_runes \<noteq> None"
    then obtain e where "e \<in> set space_runes" "e \<noteq> []" "HasPrefix ?t e"
      by (auto simp: find_None_iff)
    then have "e \<in> set space_runes" "e \<noteq> [] \<and> HasPrefix ?u e"
      using HasPrefix_append[of ?t e "rev front"] u by simp_all
    then have "find (\<lambda>e. e \<noteq> [] \<and> HasPrefix ?u e) space_runes \<noteq> None"
      by (auto simp: find_None_iff)
    then show False
      using strip_runes_fixed[of space_runes s] by (simp add: TrimLeftSpace_def)
  qed
  then have left: "TrimLeftSpace ?t = ?t"
    unfolding TrimLeftSpace_def[of ?t] by (rule strip_runes_no_prefix)
  have "TrimRightSpace ?t = ?t"
    by (simp add: TrimRightSpace_def strip_runes_idem)
  with left show ?thesis by (simp add: TrimSpace_def)
qed

lemma Command_trimmed:
  "fst (Command w repoPath args) = Inr out \<Longrightarrow> TrimSpace out = out"
  by (auto simp: Command_def Let_def TrimSpace_idem split: option.splits if_splits)

lemma strip_runes_empty:
  "strip_runes rs [] = []"
proof (rule strip_runes_no_prefix)
  show "find (\<lambda>e. e \<noteq> [] \<and> HasPrefix [] e) rs = None"
    by (auto simp: find_None_iff HasPrefix_def)
qed

lemma strip_runes_blank:
  assumes "set s \<subseteq> {CHR 0x09, CHR 0x0A, CHR 0x0B, CHR 0x0C, CHR 0x0D, CHR 0x20}"
  shows "strip_runes space_runes s = []"
  using assms
proof (induction s)
  case Nil
  then show ?case by (simp add: strip_runes_empty)
next
  case (Cons c s)
  then have "c = CHR 0x09 \<or> c = CHR 0x0A \<or> c = CHR 0x0B \<or> c = CHR 0x0C \<or>
             c = CHR 0x0D \<or> c = CHR 0x20"
    by simp
  then have "find (\<lambda>e. e \<noteq> [] \<and> HasPrefix (c # s) e) space_runes = Some [c]"
    by (elim disjE) (simp_all add: space_runes_def HasPrefix_def)
  then have "strip_runes space_runes (c # s) = strip_runes space_runes s"
    by (simp add: strip_runes.simps[of _ "c # s"])
  with Cons show ?case by simp
qed

lemma TrimSpace_blank:
  assumes "set s \<subseteq> {CHR 0x09, CHR 0x0A, CHR 0x0B, CHR 0x0C, CHR 0x0D, CHR 0x20}"
  shows "TrimSpace s = []"
  by (simp add: TrimSpace_def TrimLeftSpace_def TrimRightSpace_def strip_runes_blank[OF assms]
      strip_runes_empty)

lemma TrimSpace_R:
  "TrimSpace (CHR ''R'' # s) \<noteq> []"
proof
  assume a: "TrimSpace (CHR ''R'' # s) = []"
  have "TrimLeftSpace (CHR ''R'' # s) = CHR ''R'' # s"
    unfolding TrimLeftSpace_def
    by (rule strip_runes_no_prefix) (simp add: space_runes_def HasPrefix_def)
  with a have "strip_runes (map rev space_runes) (rev s @ [CHR ''R'']) = []"
    by (simp add: TrimSpace_def TrimRightSpace_def)
  from strip_runes_Nil[OF this]
  obtain e where "e \<in> set (map rev space_runes)" "CHR ''R'' = last e" by auto
  then show False by (auto simp: space_runes_def)
qed

lemma Split_nonempty: "Split s sep \<noteq> []"
  by (induction s) (auto split: list.splits)

lemma Split_first:
  "Split s sep ! 0 = takeWhile (\<lambda>c. c \<noteq> sep) s"
  by (induction s) (auto split: list.splits simp: Split_nonempty)

lemma renames_to_R:
  assumes "renames_to line p"
  shows "\<exists>s. line = CHR ''R'' # s"
proof -
  from assms have "HasPrefix (takeWhile (\<lambda>c. c \<noteq> TAB) line) ''R''"
    by (simp add: renames_to_def Let_def Split_first)
  then show ?thesis
    by (cases line) (auto simp: HasPrefix_def split: if_splits)
qed

lemma renames_to_not_blank:
  "renames_to line p \<Longrightarrow> TrimSpace line \<noteq> []"
  using renames_to_R TrimSpace_R by blast

section \<open>One invocation of the tool\<close>

lemma git_tool_logged [simp]: "git_tool (logged w repoPath args) = git_tool w"
  by (simp add: logged_def)

lemma Command_world:
  "snd (Command w repoPath args) = logged w repoPath args"
  by (simp add: Command_def logged_def Let_def split: option.split)

lemma Command_tool:
  "git_tool w' = git_tool w \<Longrightarrow> fst (Command w' repoPath args) = fst (Command w repoPath args)"
  by (simp add: Command_def Let_def split: option.split)

lemma Command_eq:
  "fst (Command w repoPath args) = res \<Longrightarrow> Command w repoPath args = (res, logged w repoPath args)"
  using Command_world[of w repoPath args] by (cases "Command w repoPath args") simp

lemma GetCommitFileDiff_eq:
  "fst (GetCommitFileDiff w repoPath hash path) = res \<Longrightarrow>
   GetCommitFileDiff w repoPath hash path =
     (res, logged w repoPath [''show'', hash, ''--'', TrimPrefix path ''/''])"
  unfolding GetCommitFileDiff_def by (rule Command_eq)

lemma GetCommitFileDiff_tool:
  "git_tool w' = git_tool w \<Longrightarrow>
   fst (GetCommitFileDiff w' repoPath hash path) = fst (GetCommitFileDiff w repoPath hash path)"
  unfolding GetCommitFileDiff_def by (rule Command_tool)

lemma GetCommitFileDiff_trimmed:
  "fst (GetCommitFileDiff w repoPath hash path) = Inr diff \<Longrightarrow> TrimSpace diff = diff"
  unfolding GetCommitFileDiff_def by (rule Command_trimmed)

lemma GetFileHistory_world:
  "snd (GetFileHistory w repoPath revision path) =
     logged w repoPath
       (GetFileHistory_args (if revision = [] then ''HEAD'' else revision) (TrimPrefix path ''/''))"
proof -
  let ?args = "GetFileHistory_args (if revision = [] then ''HEAD'' else revision) (TrimPrefix path ''/'')"
  obtain res where c: "Command w repoPath ?args = (res, logged w repoPath ?args)"
    using Command_eq by blast
  show ?thesis
    by (cases res) (simp_all add: GetFileHistory_def Let_def c del: One_nat_def)
qed

lemma GetFileHistory_eq:
  "fst (GetFileHistory w repoPath revision path) = res \<Longrightarrow>
   GetFileHistory w repoPath revision path =
     (res, logged w repoPath
       (GetFileHistory_args (if revision = [] then ''HEAD'' else revision) (TrimPrefix path ''/'')))"
  using GetFileHistory_world[of w repoPath revision path]
  by (cases "GetFileHistory w repoPath revision path") simp

lemma GetFileHistory_tool:
  assumes "git_tool w' = git_tool w"
  shows "fst (GetFileHistory w' repoPath revision path) = fst (GetFileHistory w repoPath revision path)"
proof -
  let ?args = "GetFileHistory_args (if revision = [] then ''HEAD'' else revision) (TrimPrefix path ''/'')"
  obtain res where c: "Command w repoPath ?args = (res, logged w repoPath ?args)"
    using Command_eq by blast
  then have "fst (Command w' repoPath ?args) = res"
    using Command_tool[OF assms, of repoPath ?args] by simp
  then have c': "Command w' repoPath ?args = (res, logged w' repoPath ?args)"
    by (rule Command_eq)
  show ?thesis
    by (cases res) (simp_all add: GetFileHistory_def Let_def c c' del: One_nat_def)
qed

lemma GetLog_world:
  "snd (GetLog w repoPath revision) =
     logged w repoPath (GetLog_args (if revision = [] then ''HEAD'' else revision))"
proof -
  let ?args = "GetLog_args (if revision = [] then ''HEAD'' else revision)"
  obtain res where c: "Command w repoPath ?args = (res, logged w repoPath ?args)"
    using Command_eq by blast
  show ?thesis
    by (cases res) (simp_all add: GetLog_def Let_def c del: One_nat_def)
qed

text \<open>How the resolver goes on after an empty first diff and a successful history lookup.\<close>

lemma resolveDiffWithFallback_scan:
  assumes "fst (GetCommitFileDiff w repoPath hash path) = Inr diff"
    and "TrimSpace diff = []"
    and "fst (GetFileHistory w repoPath ''HEAD'' path) = Inr history"
    and "find (\<lambda>entry. Hash entry = hash \<and> Path entry \<noteq> path) history = Some entry"
  shows "fst (resolveDiffWithFallback w repoPath hash path) =
           (case fst (GetCommitFileDiff w repoPath hash (Path entry)) of
              Inl retryErr \<Rightarrow> Inr (diff, path)
            | Inr retryDiff \<Rightarrow> Inr (retryDiff, Path entry))"
proof -
  let ?w1 = "logged w repoPath [''show'', hash, ''--'', TrimPrefix path ''/'']"
  let ?w2 = "logged ?w1 repoPath (GetFileHistory_args ''HEAD'' (TrimPrefix path ''/''))"
  have p: "GetCommitFileDiff w repoPath hash path = (Inr diff, ?w1)"
    by (rule GetCommitFileDiff_eq[OF assms(1)])
  have "fst (GetFileHistory ?w1 repoPath ''HEAD'' path) = Inr history"
    using assms(3) GetFileHistory_tool[of ?w1 w] by simp
  from GetFileHistory_eq[OF this]
  have h: "GetFileHistory ?w1 repoPath ''HEAD'' path = (Inr history, ?w2)" by simp
  obtain res where res: "fst (GetCommitFileDiff w repoPath hash (Path entry)) = res" by simp
  then have "fst (GetCommitFileDiff ?w2 repoPath hash (Path entry)) = res"
    using GetCommitFileDiff_tool[of ?w2 w] by simp
  from GetCommitFileDiff_eq[OF this]
  show ?thesis using assms(2,4) res
    by (cases res) (simp_all add: resolveDiffWithFallback_def p h)
qed

section \<open>The loop of \<^verbatim>\<open>GetFileHistory\<close>\<close>

text \<open>The three kinds of step: a well-formed marker, a malformed marker, any other line.\<close>

lemma history_entry_marker:
  "history_entry p line = Some e \<Longrightarrow> HasPrefix line ''__GB__''"
  by (simp add: history_entry_def Let_def split: if_splits)

lemma line_marker:
  assumes "history_entry (currentPath (flush st)) line = Some e"
  shows "GetFileHistory_line st line = (flush st)\<lparr>current := Some e\<rparr>"
  using assms by (auto simp: GetFileHistory_line_def history_entry_def Let_def split: if_splits)

lemma line_malformed_marker:
  assumes "HasPrefix line ''__GB__''" and "history_entry p line = None"
  shows "GetFileHistory_line st line = flush st"
  using assms by (auto simp: GetFileHistory_line_def history_entry_def Let_def split: if_splits)

lemma history_entry_Path:
  "history_entry p line = Some e \<Longrightarrow> Path e = p"
  by (auto simp: history_entry_def Let_def split: if_splits)

text \<open>
  A line without the marker prefix leaves the entries and the cursor alone, and changes
  the pending entry at most by writing the cursor into its path.
\<close>

lemma line_status:
  assumes "\<not> HasPrefix line ''__GB__''"
  shows "entries (GetFileHistory_line st line) = entries st"
    and "currentPath (GetFileHistory_line st line) = currentPath st"
    and "current st = None \<Longrightarrow> GetFileHistory_line st line = st"
    and "current st = Some cur \<Longrightarrow> Path cur = currentPath st \<Longrightarrow>
           current (GetFileHistory_line st line) = Some cur"
    and "nextPath (GetFileHistory_line st line) =
           (if current st \<noteq> None \<and> renames_to line (currentPath st)
            then Split line TAB ! 1 else nextPath st)"
proof -
  show "entries (GetFileHistory_line st line) = entries st"
    using assms by (simp add: GetFileHistory_line_def Let_def)
  show "currentPath (GetFileHistory_line st line) = currentPath st"
    using assms by (simp add: GetFileHistory_line_def Let_def)
  show "current st = None \<Longrightarrow> GetFileHistory_line st line = st"
    using assms by (simp add: GetFileHistory_line_def Let_def)
  show "current st = Some cur \<Longrightarrow> Path cur = currentPath st \<Longrightarrow>
           current (GetFileHistory_line st line) = Some cur"
    using assms by (simp add: GetFileHistory_line_def Let_def)
  show "nextPath (GetFileHistory_line st line) =
           (if current st \<noteq> None \<and> renames_to line (currentPath st)
            then Split line TAB ! 1 else nextPath st)"
    using assms renames_to_not_blank[of line "currentPath st"]
    by (auto simp: GetFileHistory_line_def renames_to_def Let_def)
qed

text \<open>What \<^verbatim>\<open>flush\<close> does to a state whose pending entry carries the cursor.\<close>

lemma flush_None:
  "current st = None \<Longrightarrow> flush st = st"
  by (simp add: flush_def)

lemma flush_Some:
  assumes "current st = Some cur" and "Path cur = currentPath st"
  shows "flush st = st\<lparr>entries := entries st @ [cur],
                        currentPath := (if nextPath st \<noteq> [] then nextPath st else currentPath st),
                        current := None, nextPath := []\<rparr>"
  using assms by (simp add: flush_def Let_def)

lemma flush_fields:
  assumes "hist_inv st"
  shows "entries (flush st) = entries st @ pending st"
    and "current (flush st) = None"
    and "nextPath (flush st) = []"
    and "currentPath (flush st) = (if nextPath st \<noteq> [] then nextPath st else currentPath st)"
  using assms
  by (auto simp: hist_inv_def pending_def flush_None flush_Some split: option.splits)

lemma hist_inv_init: "hist_inv (hist_init path)"
  by (simp add: hist_inv_def hist_init_def)

lemma hist_inv_flush: "hist_inv st \<Longrightarrow> hist_inv (flush st)"
  using flush_fields(2,3)[of st] by (simp add: hist_inv_def)

lemma hist_inv_line:
  assumes "hist_inv st"
  shows "hist_inv (GetFileHistory_line st line)"
proof (cases "HasPrefix line ''__GB__''")
  case True
  show ?thesis
  proof (cases "history_entry (currentPath (flush st)) line")
    case None
    with True show ?thesis
      using line_malformed_marker hist_inv_flush[OF assms] by simp
  next
    case (Some e)
    then show ?thesis
      using line_marker[OF Some] history_entry_Path[OF Some] by (simp add: hist_inv_def)
  qed
next
  case False
  show ?thesis
  proof (cases "current st")
    case None
    then show ?thesis using line_status(3)[OF False] assms by simp
  next
    case (Some cur)
    with assms have "Path cur = currentPath st" by (simp add: hist_inv_def)
    with Some show ?thesis
      using line_status(2,4)[OF False, of st] by (simp add: hist_inv_def)
  qed
qed

lemma hist_inv_foldl:
  "hist_inv st \<Longrightarrow> hist_inv (foldl GetFileHistory_line st ls)"
  by (induction ls arbitrary: st) (simp_all add: hist_inv_line)

text \<open>The status lines of one commit: the lines up to the next marker.\<close>

lemma section_foldl:
  assumes "\<forall>l\<in>set sec. \<not> HasPrefix l ''__GB__''"
    and "current st = Some cur" and "Path cur = currentPath st"
  shows "entries (foldl GetFileHistory_line st sec) = entries st \<and>
         currentPath (foldl GetFileHistory_line st sec) = currentPath st \<and>
         current (foldl GetFileHistory_line st sec) = Some cur"
  using assms
proof (induction sec arbitrary: st)
  case Nil
  then show ?case by simp
next
  case (Cons l sec)
  from Cons.prems have l: "\<not> HasPrefix l ''__GB__''" by simp
  have "current (GetFileHistory_line st l) = Some cur"
    using line_status(4)[OF l] Cons.prems by simp
  moreover have "Path cur = currentPath (GetFileHistory_line st l)"
    using line_status(2)[OF l] Cons.prems by simp
  ultimately show ?case
    using Cons.IH[of "GetFileHistory_line st l"] Cons.prems(1) line_status(1,2)[OF l, of st]
    by simp
qed

lemma section_foldl_nextPath:
  assumes "\<forall>l\<in>set sec. \<not> HasPrefix l ''__GB__''"
    and "\<forall>l\<in>set sec. \<not> renames_to l (currentPath st)"
  shows "nextPath (foldl GetFileHistory_line st sec) = nextPath st"
  using assms
proof (induction sec arbitrary: st)
  case Nil
  then show ?case by simp
next
  case (Cons l sec)
  from Cons.prems have l: "\<not> HasPrefix l ''__GB__''" "\<not> renames_to l (currentPath st)"
    by simp_all
  have "nextPath (GetFileHistory_line st l) = nextPath st"
    using line_status(5)[OF l(1), of st] l(2) by simp
  moreover have "currentPath (GetFileHistory_line st l) = currentPath st"
    by (rule line_status(2)[OF l(1)])
  ultimately show ?case
    using Cons.IH[of "GetFileHistory_line st l"] Cons.prems by simp
qed

lemma section_rename:
  assumes "\<forall>l\<in>set (sec1 @ [r] @ sec2). \<not> HasPrefix l ''__GB__''"
    and "renames_to r (currentPath st)"
    and "\<forall>l\<in>set sec2. \<not> renames_to l (currentPath st)"
    and "current st = Some cur" and "Path cur = currentPath st"
  shows "entries (foldl GetFileHistory_line st (sec1 @ [r] @ sec2)) = entries st \<and>
         currentPath (foldl GetFileHistory_line st (sec1 @ [r] @ sec2)) = currentPath st \<and>
         current (foldl GetFileHistory_line st (sec1 @ [r] @ sec2)) = Some cur \<and>
         nextPath (foldl GetFileHistory_line st (sec1 @ [r] @ sec2)) = Split r TAB ! 1"
proof -
  let ?st1 = "foldl GetFileHistory_line st sec1"
  let ?st2 = "GetFileHistory_line ?st1 r"
  have all: "entries (foldl GetFileHistory_line st (sec1 @ [r] @ sec2)) = entries st \<and>
         currentPath (foldl GetFileHistory_line st (sec1 @ [r] @ sec2)) = currentPath st \<and>
         current (foldl GetFileHistory_line st (sec1 @ [r] @ sec2)) = Some cur"
    by (rule section_foldl[OF assms(1,4,5)])
  have st1: "currentPath ?st1 = currentPath st" "current ?st1 = Some cur"
    using section_foldl[of sec1 st cur] assms(1,4,5) by simp_all
  have r: "\<not> HasPrefix r ''__GB__''" using assms(1) by simp
  have "nextPath ?st2 = Split r TAB ! 1"
    using line_status(5)[OF r, of ?st1] st1 assms(2) by simp
  moreover have "currentPath ?st2 = currentPath st"
    using line_status(2)[OF r, of ?st1] st1 by simp
  ultimately have "nextPath (foldl GetFileHistory_line ?st2 sec2) = Split r TAB ! 1"
    using section_foldl_nextPath[of sec2 ?st2] assms(1,3) by simp
  with all show ?thesis by simp
qed

text \<open>
  The commits that follow while no status line renames to the cursor: each well-formed
  marker gives one entry, with the cursor as its path.
\<close>

lemma line_no_rename:
  assumes "hist_inv st" and "nextPath st = []" and "\<not> renames_to line (currentPath st)"
  shows "hist_inv (GetFileHistory_line st line) \<and>
         nextPath (GetFileHistory_line st line) = [] \<and>
         currentPath (GetFileHistory_line st line) = currentPath st \<and>
         entries (GetFileHistory_line st line) @ pending (GetFileHistory_line st line) =
           entries st @ pending st @
             (case history_entry (currentPath st) line of None \<Rightarrow> [] | Some e \<Rightarrow> [e])"
proof (cases "HasPrefix line ''__GB__''")
  case True
  have fl: "entries (flush st) = entries st @ pending st" "current (flush st) = None"
    "nextPath (flush st) = []" "currentPath (flush st) = currentPath st"
    using flush_fields[OF assms(1)] assms(2) by simp_all
  show ?thesis
  proof (cases "history_entry (currentPath st) line")
    case None
    then have "GetFileHistory_line st line = flush st"
      using line_malformed_marker[OF True] by simp
    with None fl hist_inv_flush[OF assms(1)] show ?thesis by (simp add: pending_def)
  next
    case (Some e)
    then have "GetFileHistory_line st line = (flush st)\<lparr>current := Some e\<rparr>"
      using line_marker[of st line e] fl(4) by simp
    with Some fl history_entry_Path[OF Some] show ?thesis
      by (simp add: pending_def hist_inv_def)
  qed
next
  case False
  then have none: "history_entry (currentPath st) line = None"
    using history_entry_marker by (cases "history_entry (currentPath st) line") auto
  have np: "nextPath (GetFileHistory_line st line) = []"
    using line_status(5)[OF False, of st] assms(2,3) by simp
  have pend: "pending (GetFileHistory_line st line) = pending st"
  proof (cases "current st")
    case None
    then show ?thesis using line_status(3)[OF False] by simp
  next
    case (Some cur)
    with assms(1) have "Path cur = currentPath st" by (simp add: hist_inv_def)
    with Some show ?thesis using line_status(4)[OF False, of st cur] by (simp add: pending_def)
  qed
  show ?thesis
    using hist_inv_line[OF assms(1)] np pend none line_status(1,2)[OF False, of st] by simp
qed

lemma older_commits:
  assumes "hist_inv st" and "nextPath st = []"
    and "\<forall>l\<in>set ls. \<not> renames_to l (currentPath st)"
  shows "entries (flush (foldl GetFileHistory_line st ls)) =
           entries st @ pending st @ List.map_filter (history_entry (currentPath st)) ls"
  using assms
proof (induction ls arbitrary: st)
  case Nil
  then show ?case using flush_fields(1)[of st] by simp
next
  case (Cons l ls)
  let ?st = "GetFileHistory_line st l"
  from Cons.prems have l: "\<not> renames_to l (currentPath st)" by simp
  note step = line_no_rename[OF Cons.prems(1,2) l]
  have "entries (flush (foldl GetFileHistory_line ?st ls)) =
          entries ?st @ pending ?st @ List.map_filter (history_entry (currentPath ?st)) ls"
    using Cons.IH[of ?st] step Cons.prems(3) by simp
  also have "\<dots> = (entries st @ pending st @
      (case history_entry (currentPath st) l of None \<Rightarrow> [] | Some e \<Rightarrow> [e])) @
      List.map_filter (history_entry (currentPath st)) ls"
    using step by simp
  finally show ?case
    by (simp split: option.split)
qed

text \<open>The entries already appended take no part in what the loop does next.\<close>

lemma flush_entries_prefix:
  "flush (st\<lparr>entries := E @ entries st\<rparr>) = (flush st)\<lparr>entries := E @ entries (flush st)\<rparr>"
  by (simp add: flush_def Let_def split: option.split)

lemma line_entries_prefix:
  "GetFileHistory_line (st\<lparr>entries := E @ entries st\<rparr>) line =
     (GetFileHistory_line st line)\<lparr>entries := E @ entries (GetFileHistory_line st line)\<rparr>"
  by (simp add: GetFileHistory_line_def flush_entries_prefix Let_def)

lemma foldl_entries_prefix:
  "foldl GetFileHistory_line (st\<lparr>entries := E @ entries st\<rparr>) ls =
     (foldl GetFileHistory_line st ls)\<lparr>entries := E @ entries (foldl GetFileHistory_line st ls)\<rparr>"
  by (induction ls arbitrary: st) (simp_all add: line_entries_prefix)

lemma restart_at_cursor:
  assumes "current st = None" and "nextPath st = []"
  shows "entries (flush (foldl GetFileHistory_line st ls)) =
           entries st @ GetFileHistory_parse (currentPath st) ls"
proof -
  have "st = (hist_init (currentPath st))\<lparr>entries := entries st @ entries (hist_init (currentPath st))\<rparr>"
    using assms by (simp add: hist_init_def)
  then have "flush (foldl GetFileHistory_line st ls) =
      flush ((foldl GetFileHistory_line (hist_init (currentPath st)) ls)
        \<lparr>entries := entries st @ entries (foldl GetFileHistory_line (hist_init (currentPath st)) ls)\<rparr>)"
    using foldl_entries_prefix[where st = "hist_init (currentPath st)" and E = "entries st" and ls = ls]
    by simp
  then show ?thesis
    by (simp add: flush_entries_prefix GetFileHistory_parse_def)
qed

lemma flush_flush: "flush (flush st) = flush st"
  by (simp add: flush_def Let_def split: option.split)

lemma line_marker_flush:
  "HasPrefix line ''__GB__'' \<Longrightarrow>
   GetFileHistory_line (flush st) line = GetFileHistory_line st line"
  by (simp add: GetFileHistory_line_def flush_flush)

lemma flush_before_marker:
  assumes "ls = [] \<or> HasPrefix (hd ls) ''__GB__''"
  shows "flush (foldl GetFileHistory_line (flush st) ls) = flush (foldl GetFileHistory_line st ls)"
  using assms by (cases ls) (simp_all add: flush_flush line_marker_flush)

lemma parse_older_commits:
  assumes "\<forall>l\<in>set ls. \<not> renames_to l p"
  shows "GetFileHistory_parse p ls = List.map_filter (history_entry p) ls"
  using older_commits[of "hist_init p" ls] assms
  by (simp add: GetFileHistory_parse_def hist_inv_init) (simp add: hist_init_def pending_def)

text \<open>One commit whose status lines report a rename to the cursor.\<close>

lemma rename_commit:
  assumes m: "HasPrefix m ''__GB__''" "Split (TrimPrefix m ''__GB__'') PIPE = [h, a, d, s]"
    and sec: "\<forall>l\<in>set (sec1 @ [r] @ sec2). \<not> HasPrefix l ''__GB__''"
    and r: "Split r TAB = status # old # new # others" "HasPrefix status ''R''"
    and new: "new = cursor_after path pre"
    and old: "old \<noteq> []"
    and sec2: "\<forall>l\<in>set sec2. \<not> renames_to l new"
    and post: "post = [] \<or> HasPrefix (hd post) ''__GB__''"
  shows "GetFileHistory_parse path (pre @ [m] @ sec1 @ [r] @ sec2 @ post) =
           GetFileHistory_parse path pre @
           [\<lparr>Hash = h, Author = a, Date = d, Subject = s, Path = new\<rparr>] @
           GetFileHistory_parse old post"
proof -
  let ?e = "\<lparr>Hash = h, Author = a, Date = d, Subject = s, Path = new\<rparr>"
  let ?pre = "foldl GetFileHistory_line (hist_init path) pre"
  let ?st1 = "(flush ?pre)\<lparr>current := Some ?e\<rparr>"
  let ?st2 = "foldl GetFileHistory_line ?st1 (sec1 @ [r] @ sec2)"
  have inv: "hist_inv ?pre" by (simp add: hist_inv_foldl hist_inv_init)
  note fl = flush_fields[OF inv]
  have cur: "currentPath (flush ?pre) = new" by (simp add: new cursor_after_def)
  have "history_entry new m = Some ?e"
    using m by (simp add: history_entry_def)
  then have st1: "GetFileHistory_line ?pre m = ?st1"
    using line_marker[of ?pre m ?e] cur by simp
  have rn: "renames_to r new" "Split r TAB ! 1 = old"
    using r by (simp_all add: renames_to_def)
  have st2: "entries ?st2 = entries (flush ?pre)" "currentPath ?st2 = new"
    "current ?st2 = Some ?e" "nextPath ?st2 = old"
    using section_rename[of sec1 r sec2 ?st1 ?e] sec rn sec2 cur by simp_all
  have fl2: "entries (flush ?st2) = entries (flush ?pre) @ [?e]" "current (flush ?st2) = None"
    "nextPath (flush ?st2) = []" "currentPath (flush ?st2) = old"
    using st2 old flush_Some[of ?st2 ?e] by simp_all
  have "foldl GetFileHistory_line (hist_init path) (pre @ [m] @ sec1 @ [r] @ sec2 @ post) =
          foldl GetFileHistory_line ?st2 post"
    using st1 by simp
  then have "GetFileHistory_parse path (pre @ [m] @ sec1 @ [r] @ sec2 @ post) =
          entries (flush (foldl GetFileHistory_line (flush ?st2) post))"
    unfolding GetFileHistory_parse_def using flush_before_marker[OF post, of ?st2] by simp
  also have "\<dots> = entries (flush ?st2) @ GetFileHistory_parse (currentPath (flush ?st2)) post"
    by (rule restart_at_cursor[OF fl2(2,3)])
  finally show ?thesis
    using fl2 by (simp add: GetFileHistory_parse_def)
qed

section \<open>The history resolver\<close>

text \<open>
  Rename tracking for a record with a well-formed marker. Let the output be read up to a
  commit record that consists of a marker \<open>m\<close> with four fields and the status lines
  \<open>sec1 @ [r] @ sec2\<close>, where \<open>r\<close> reports a rename from \<open>old\<close> to \<open>new\<close>, \<open>new\<close> is the
  cursor when the record is read, and \<open>r\<close> is the last such line of the record. Then the
  entries are: those of the newer commits; the entry of this commit, with \<open>new\<close> as its
  recorded path; and what the parser gives for the older commits \<open>post\<close> with \<open>old\<close> as the
  cursor. When no status line of the older commits renames to \<open>old\<close>, every one of their
  entries records \<open>old\<close>.
\<close>

lemma rename_tracking_well_formed:
  assumes "HasPrefix m ''__GB__''"
    and "Split (TrimPrefix m ''__GB__'') PIPE = [h, a, d, s]"
    and "\<forall>l\<in>set (sec1 @ [r] @ sec2). \<not> HasPrefix l ''__GB__''"
    and "Split r TAB = status # old # new # others"
    and "HasPrefix status ''R''"
    and "new = cursor_after path pre"
    and "old \<noteq> []"
    and "\<forall>l\<in>set sec2. \<not> renames_to l new"
    and "post = [] \<or> HasPrefix (hd post) ''__GB__''"
  shows "GetFileHistory_parse path (pre @ [m] @ sec1 @ [r] @ sec2 @ post) =
           GetFileHistory_parse path pre @
           [\<lparr>Hash = h, Author = a, Date = d, Subject = s, Path = new\<rparr>] @
           GetFileHistory_parse old post \<and>
         ((\<forall>l\<in>set post. \<not> renames_to l old) \<longrightarrow>
            GetFileHistory_parse old post = List.map_filter (history_entry old) post \<and>
            (\<forall>e\<in>set (GetFileHistory_parse old post). Path e = old))"
proof (intro conjI impI)
  show "GetFileHistory_parse path (pre @ [m] @ sec1 @ [r] @ sec2 @ post) =
           GetFileHistory_parse path pre @
           [\<lparr>Hash = h, Author = a, Date = d, Subject = s, Path = new\<rparr>] @
           GetFileHistory_parse old post"
    by (rule rename_commit[OF assms])
next
  assume older: "\<forall>l\<in>set post. \<not> renames_to l old"
  then show eq: "GetFileHistory_parse old post = List.map_filter (history_entry old) post"
    by (rule parse_older_commits)
  show "\<forall>e\<in>set (GetFileHistory_parse old post). Path e = old"
    unfolding eq by (auto simp: List.map_filter_def history_entry_Path)
qed

text \<open>
  The three commits of the scenario: the history of \<^verbatim>\<open>b/a/f.kt\<close> has exactly three
  entries, newest first; the rename commit records the new name, the modifying commit and
  the creating commit record the original name.
\<close>

lemma scenario_three_commits:
  "HasPrefix ''__GB__H3|Test User|2024-01-03|v3'' ''__GB__'' \<and>
   Split (TrimPrefix ''__GB__H3|Test User|2024-01-03|v3'' ''__GB__'') PIPE
     = [''H3'', ''Test User'', ''2024-01-03'', ''v3''] \<and>
   list_all (\<lambda>l. \<not> HasPrefix l ''__GB__'')
     ([] @ [''R100'' @ [TAB] @ ''a/f.kt'' @ [TAB] @ ''b/a/f.kt''] @ [[]]) \<and>
   Split (''R100'' @ [TAB] @ ''a/f.kt'' @ [TAB] @ ''b/a/f.kt'') TAB
     = ''R100'' # ''a/f.kt'' # ''b/a/f.kt'' # [] \<and>
   HasPrefix ''R100'' ''R'' \<and>
   ''b/a/f.kt'' = cursor_after ''b/a/f.kt'' [] \<and>
   ''a/f.kt'' \<noteq> [] \<and>
   list_all (\<lambda>l. \<not> renames_to l ''b/a/f.kt'') [[]] \<and>
   list_all (\<lambda>l. \<not> renames_to l ''a/f.kt'') (drop 3 scenario_lines) \<and>
   HasPrefix (hd (drop 3 scenario_lines)) ''__GB__'' \<and>
   GetFileHistory_parse ''b/a/f.kt'' scenario_lines = [entry_v3, entry_v2, entry_v1] \<and>
   length (GetFileHistory_parse ''b/a/f.kt'' scenario_lines) = 3 \<and>
   map Path (GetFileHistory_parse ''b/a/f.kt'' scenario_lines)
     = [''b/a/f.kt'', ''a/f.kt'', ''a/f.kt'']"
proof -
  let ?m = "''__GB__H3|Test User|2024-01-03|v3''"
  let ?r = "''R100'' @ [TAB] @ ''a/f.kt'' @ [TAB] @ ''b/a/f.kt''"
  let ?post = "drop 3 scenario_lines"
  have lines: "scenario_lines = [] @ [?m] @ [] @ [?r] @ [[]] @ ?post"
    by (simp add: scenario_lines_def)
  have h1: "HasPrefix ?m ''__GB__''" by (simp add: string_eval)
  have h2: "Split (TrimPrefix ?m ''__GB__'') PIPE = [''H3'', ''Test User'', ''2024-01-03'', ''v3'']"
    by (simp add: string_eval)
  have h3: "\<forall>l\<in>set ([] @ [?r] @ [[]]). \<not> HasPrefix l ''__GB__''"
    by (simp add: string_eval)
  have h4: "Split ?r TAB = ''R100'' # ''a/f.kt'' # ''b/a/f.kt'' # []"
    by (simp add: string_eval)
  have h5: "HasPrefix ''R100'' ''R''" by (simp add: string_eval)
  have h6: "''b/a/f.kt'' = cursor_after ''b/a/f.kt'' []"
    by (simp add: cursor_after_def hist_init_def flush_def)
  have h7: "''a/f.kt'' \<noteq> []" by simp
  have h8: "\<forall>l\<in>set [[]]. \<not> renames_to l ''b/a/f.kt''"
    by (simp add: renames_to_def)
  have h9: "?post = [] \<or> HasPrefix (hd ?post) ''__GB__''"
    by (simp add: scenario_lines_def string_eval)
  have h10: "\<forall>l\<in>set ?post. \<not> renames_to l ''a/f.kt''"
    by (simp add: scenario_lines_def renames_to_def string_eval)
  have older: "List.map_filter (history_entry ''a/f.kt'') ?post = [entry_v2, entry_v1]"
    by (simp add: scenario_lines_def history_entry_def entry_v2_def
        entry_v1_def string_eval)
  have newer: "GetFileHistory_parse ''b/a/f.kt'' [] = []"
    by (simp add: GetFileHistory_parse_def hist_init_def flush_def)
  from rename_tracking_well_formed[OF h1 h2 h3 h4 h5 h6 h7 h8 h9] h10
  have "GetFileHistory_parse ''b/a/f.kt'' ([] @ [?m] @ [] @ [?r] @ [[]] @ ?post) =
          GetFileHistory_parse ''b/a/f.kt'' [] @
          [\<lparr>Hash = ''H3'', Author = ''Test User'', Date = ''2024-01-03'', Subject = ''v3'',
            Path = ''b/a/f.kt''\<rparr>] @ List.map_filter (history_entry ''a/f.kt'') ?post"
    by simp
  then have res: "GetFileHistory_parse ''b/a/f.kt'' scenario_lines = [entry_v3, entry_v2, entry_v1]"
    unfolding lines[symmetric] older newer by (simp add: entry_v3_def)
  have paths: "map Path [entry_v3, entry_v2, entry_v1] = [''b/a/f.kt'', ''a/f.kt'', ''a/f.kt'']"
    by (simp add: entry_v3_def entry_v2_def entry_v1_def)
  show ?thesis
    unfolding res paths list_all_iff using h1 h2 h3 h4 h5 h6 h8 h9 h10
    by (simp add: scenario_lines_def)
qed

text \<open>
  Claim C4 (an empty result is no error). When the tool succeeds on the history query and
  its output is empty after trimming, \<open>GetFileHistory\<close> returns the empty sequence and no
  error.
\<close>

theorem GetFileHistory_empty_result:
  assumes "run_err (git_tool w repoPath
             (GetFileHistory_args (if revision = [] then ''HEAD'' else revision)
                (TrimPrefix path ''/''))) = None"
    and "TrimSpace (run_stdout (git_tool w repoPath
             (GetFileHistory_args (if revision = [] then ''HEAD'' else revision)
                (TrimPrefix path ''/'')))) = []"
  shows "fst (GetFileHistory w repoPath revision path) = Inr []"
  using assms by (simp add: GetFileHistory_def Command_def Let_def)

theorem GetFileHistory_empty_result_witness:
  "run_err (git_tool (scenario_world []) ''/repo'' (GetFileHistory_args ''HEAD'' ''none.kt''))
     = None \<and>
   TrimSpace (run_stdout (git_tool (scenario_world []) ''/repo''
     (GetFileHistory_args ''HEAD'' ''none.kt''))) = [] \<and>
   fst (GetFileHistory (scenario_world []) ''/repo'' [] ''/none.kt'') = Inr []"
proof -
  have args: "GetFileHistory_args (if ([]::string) = [] then ''HEAD'' else [])
                (TrimPrefix ''/none.kt'' ''/'') = GetFileHistory_args ''HEAD'' ''none.kt''"
    by (simp add: string_eval)
  have tool: "git_tool (scenario_world []) ''/repo'' (GetFileHistory_args ''HEAD'' ''none.kt'')
                = tool_ok [NL]"
    by (simp add: scenario_world_def scenario_tool_def GetFileHistory_args_def)
  have h1: "run_err (git_tool (scenario_world []) ''/repo''
              (GetFileHistory_args ''HEAD'' ''none.kt'')) = None"
    by (simp add: tool tool_ok_def)
  have h2: "TrimSpace (run_stdout (git_tool (scenario_world []) ''/repo''
              (GetFileHistory_args ''HEAD'' ''none.kt''))) = []"
    by (simp add: tool tool_ok_def string_eval)
  show ?thesis
    using h1 h2 GetFileHistory_empty_result[of "scenario_world []" "''/repo''" "[]" "''/none.kt''"]
    unfolding args by simp
qed

text \<open>Each well-formed marker gives one entry, in the order of the lines.\<close>

lemma marker_log_history_entry:
  "map_option log_of (history_entry p line) = marker_log line"
  by (simp add: history_entry_def marker_log_def log_of_def Let_def)

lemma marker_log_marker:
  "marker_log line = Some e \<Longrightarrow> HasPrefix line ''__GB__''"
  by (simp add: marker_log_def Let_def split: if_splits)

lemma line_logs:
  assumes "hist_inv st"
  shows "map log_of (entries (GetFileHistory_line st line) @ pending (GetFileHistory_line st line)) =
           map log_of (entries st @ pending st) @
             (case marker_log line of None \<Rightarrow> [] | Some e \<Rightarrow> [e])"
proof (cases "HasPrefix line ''__GB__''")
  case True
  note fl = flush_fields[OF assms]
  show ?thesis
  proof (cases "history_entry (currentPath (flush st)) line")
    case None
    then have "GetFileHistory_line st line = flush st"
      using line_malformed_marker[OF True] by simp
    moreover have "marker_log line = None"
      using None marker_log_history_entry[of "currentPath (flush st)" line] by simp
    ultimately show ?thesis using fl by (simp add: pending_def)
  next
    case (Some e)
    then have "GetFileHistory_line st line = (flush st)\<lparr>current := Some e\<rparr>"
      by (rule line_marker)
    moreover have "marker_log line = Some (log_of e)"
      using Some marker_log_history_entry[of "currentPath (flush st)" line] by simp
    ultimately show ?thesis using fl by (simp add: pending_def)
  qed
next
  case False
  then have none: "marker_log line = None"
    using marker_log_marker by (cases "marker_log line") auto
  have pend: "pending (GetFileHistory_line st line) = pending st"
  proof (cases "current st")
    case None
    then show ?thesis using line_status(3)[OF False] by simp
  next
    case (Some cur)
    with assms have "Path cur = currentPath st" by (simp add: hist_inv_def)
    with Some show ?thesis using line_status(4)[OF False, of st cur] by (simp add: pending_def)
  qed
  show ?thesis using none pend line_status(1)[OF False, of st] by simp
qed

lemma foldl_logs:
  assumes "hist_inv st"
  shows "map log_of (entries (flush (foldl GetFileHistory_line st ls))) =
           map log_of (entries st @ pending st) @ List.map_filter marker_log ls"
  using assms
proof (induction ls arbitrary: st)
  case Nil
  then show ?case using flush_fields(1)[of st] by simp
next
  case (Cons l ls)
  let ?st = "GetFileHistory_line st l"
  have "map log_of (entries (flush (foldl GetFileHistory_line ?st ls))) =
          map log_of (entries ?st @ pending ?st) @ List.map_filter marker_log ls"
    by (rule Cons.IH[OF hist_inv_line[OF Cons.prems]])
  then show ?case
    unfolding line_logs[OF Cons.prems]
    by (simp split: option.split)
qed

lemma GetFileHistory_parse_logs:
  "map log_of (GetFileHistory_parse path ls) = List.map_filter marker_log ls"
  using foldl_logs[OF hist_inv_init, of path ls]
  by (simp add: GetFileHistory_parse_def) (simp add: hist_init_def pending_def)

lemma GetFileHistory_result:
  assumes "fst (Command w repoPath
             (GetFileHistory_args (if revision = [] then ''HEAD'' else revision)
                (TrimPrefix path ''/''))) = Inr out"
  shows "fst (GetFileHistory w repoPath revision path) =
           Inr (if out = [] then []
                else GetFileHistory_parse (TrimPrefix path ''/'') (Split out NL))"
  by (simp add: GetFileHistory_def Let_def Command_eq[OF assms])

lemma GetLog_result:
  assumes "fst (Command w repoPath
             (GetLog_args (if revision = [] then ''HEAD'' else revision))) = Inr out"
  shows "fst (GetLog w repoPath revision) =
           Inr (if out = [] then [] else foldl GetLog_line [] (Split out NL))"
  by (simp add: GetLog_def Let_def Command_eq[OF assms])

lemma marker_log_Nil: "marker_log [] = None"
  by (simp add: marker_log_def HasPrefix_def)

lemma scenario_Command_history:
  "fst (Command (scenario_world []) ''/repo'' (GetFileHistory_args ''HEAD'' ''b/a/f.kt''))
     = Inr (Join scenario_lines NL)"
  by (simp add: Command_def scenario_world_def scenario_tool_def tool_ok_def scenario_output)

text \<open>
  Claim C6 (ordering). When the tool succeeds with the trimmed output \<open>out\<close>,
  \<open>GetFileHistory\<close> returns entries whose commits (hash, author, date, subject) are, in this
  order, those of the well-formed marker lines of \<open>out\<close>: the order of the tool's log, which
  is newest first. The parser reorders nothing.
\<close>

theorem GetFileHistory_keeps_log_order:
  assumes "fst (Command w repoPath
             (GetFileHistory_args (if revision = [] then ''HEAD'' else revision)
                (TrimPrefix path ''/''))) = Inr out"
  shows "\<exists>es. fst (GetFileHistory w repoPath revision path) = Inr es \<and>
              map log_of es = List.map_filter marker_log (Split out NL)"
  unfolding GetFileHistory_result[OF assms]
  by (simp add: GetFileHistory_parse_logs marker_log_Nil)

theorem GetFileHistory_keeps_log_order_witness:
  "fst (Command (scenario_world []) ''/repo''
         (GetFileHistory_args (if ''HEAD'' = [] then ''HEAD'' else ''HEAD'')
            (TrimPrefix ''b/a/f.kt'' ''/''))) = Inr (Join scenario_lines NL) \<and>
   (\<exists>es. fst (GetFileHistory (scenario_world []) ''/repo'' ''HEAD'' ''b/a/f.kt'') = Inr es \<and>
         map log_of es = List.map_filter marker_log (Split (Join scenario_lines NL) NL)) \<and>
   List.map_filter marker_log (Split (Join scenario_lines NL) NL)
     = [log_of entry_v3, log_of entry_v2, log_of entry_v1]"
proof -
  have c: "fst (Command (scenario_world []) ''/repo''
         (GetFileHistory_args (if ''HEAD'' = [] then ''HEAD'' else ''HEAD'')
            (TrimPrefix ''b/a/f.kt'' ''/''))) = Inr (Join scenario_lines NL)"
    using scenario_Command_history by (simp add: TrimPrefix_def HasPrefix_def)
  have m: "List.map_filter marker_log (Split (Join scenario_lines NL) NL)
             = [log_of entry_v3, log_of entry_v2, log_of entry_v1]"
    unfolding scenario_split
    by (simp add: scenario_lines_def marker_log_def log_of_def
        entry_v3_def entry_v2_def entry_v1_def string_eval)
  show ?thesis
    using c GetFileHistory_keeps_log_order[OF c] m by simp
qed

text \<open>Lines that the two loops pass over.\<close>

lemma line_short_status:
  "\<not> HasPrefix line ''__GB__'' \<Longrightarrow> length (Split line TAB) < 2 \<Longrightarrow>
   GetFileHistory_line st line = st"
  by (simp add: GetFileHistory_line_def Let_def)

lemma parse_malformed_marker:
  assumes "HasPrefix line ''__GB__''"
    and "length (Split (TrimPrefix line ''__GB__'') PIPE) \<noteq> 4"
  shows "GetFileHistory_parse path (xs @ [line] @ ys) =
           GetFileHistory_parse path xs @ GetFileHistory_parse (cursor_after path xs) ys"
proof -
  let ?st = "foldl GetFileHistory_line (hist_init path) xs"
  have inv: "hist_inv ?st" by (simp add: hist_inv_foldl hist_inv_init)
  have "history_entry path line = None"
    using assms(2) by (simp add: history_entry_def Let_def)
  then have "GetFileHistory_line ?st line = flush ?st"
    by (rule line_malformed_marker[OF assms(1)])
  then have "GetFileHistory_parse path (xs @ [line] @ ys) =
               entries (flush (foldl GetFileHistory_line (flush ?st) ys))"
    by (simp add: GetFileHistory_parse_def)
  also have "\<dots> = entries (flush ?st) @ GetFileHistory_parse (currentPath (flush ?st)) ys"
    by (rule restart_at_cursor[OF flush_fields(2,3)[OF inv]])
  finally show ?thesis
    by (simp add: GetFileHistory_parse_def cursor_after_def)
qed

lemma length_GetLog_foldl:
  "length (foldl GetLog_line es ls) \<le> length es + length ls"
proof (induction ls arbitrary: es)
  case Nil
  then show ?case by simp
next
  case (Cons l ls)
  have "length (GetLog_line es l) \<le> Suc (length es)"
    by (simp add: GetLog_line_def Let_def)
  with Cons[of "GetLog_line es l"] show ?case by simp
qed

lemma length_map_filter_markers:
  "length (List.map_filter marker_log ls) \<le> length (filter (\<lambda>l. HasPrefix l ''__GB__'') ls)"
proof (induction ls)
  case Nil
  then show ?case by simp
next
  case (Cons l ls)
  then show ?case
    using marker_log_marker[of l]
    by (cases "marker_log l") auto
qed

lemma output_world_Command:
  "fst (Command (output_world out) repoPath args) = Inr (TrimSpace out)"
  by (simp add: Command_def output_world_def tool_ok_def)

lemma log_line_Nil: "log_line [] = None"
  by (simp add: log_line_def)

lemma GetLog_foldl_entries:
  "foldl GetLog_line es ls = es @ List.map_filter log_line ls"
proof (induction ls arbitrary: es)
  case Nil
  then show ?case by simp
next
  case (Cons l ls)
  have "GetLog_line es l = es @ (case log_line l of None \<Rightarrow> [] | Some e \<Rightarrow> [e])"
    by (simp add: GetLog_line_def log_line_def Let_def)
  with Cons[of "GetLog_line es l"] show ?case
    by (simp split: option.split)
qed

lemma GetLog_entries:
  assumes "fst (Command w repoPath
             (GetLog_args (if revision = [] then ''HEAD'' else revision))) = Inr out"
  shows "fst (GetLog w repoPath revision) = Inr (List.map_filter log_line (Split out NL))"
  unfolding GetLog_result[OF assms] by (simp add: GetLog_foldl_entries log_line_Nil)

lemma GetFileHistory_parse_Nil_line: "GetFileHistory_parse path [[]] = []"
  by (simp add: GetFileHistory_parse_def hist_init_def GetFileHistory_line_def flush_def
      HasPrefix_def)

lemma GetFileHistory_entries:
  assumes "fst (Command w repoPath
             (GetFileHistory_args (if revision = [] then ''HEAD'' else revision)
                (TrimPrefix path ''/''))) = Inr out"
  shows "fst (GetFileHistory w repoPath revision path) =
           Inr (GetFileHistory_parse (TrimPrefix path ''/'') (Split out NL))"
  unfolding GetFileHistory_result[OF assms] by (simp add: GetFileHistory_parse_Nil_line)

lemma foldl_no_pending:
  assumes "current st = None" and "\<forall>l\<in>set ls. \<not> HasPrefix l ''__GB__''"
  shows "foldl GetFileHistory_line st ls = st"
  using assms by (induction ls) (simp_all add: line_status(3))

lemma parse_drops_leading_status:
  "GetFileHistory_parse path ls =
     GetFileHistory_parse path (dropWhile (\<lambda>l. \<not> HasPrefix l ''__GB__'') ls)"
proof -
  let ?P = "\<lambda>l. \<not> HasPrefix l ''__GB__''"
  have "foldl GetFileHistory_line (hist_init path) (takeWhile ?P ls) = hist_init path"
    by (rule foldl_no_pending) (auto simp: hist_init_def dest: set_takeWhileD)
  then have "foldl GetFileHistory_line (hist_init path) (takeWhile ?P ls @ dropWhile ?P ls) =
               foldl GetFileHistory_line (hist_init path) (dropWhile ?P ls)"
    by (simp only: foldl_append)
  then show ?thesis by (simp add: GetFileHistory_parse_def)
qed

lemma piped_subject_output:
  "TrimSpace (Join piped_subject_lines NL) = Join piped_subject_lines NL"
  "Split (Join piped_subject_lines NL) NL = piped_subject_lines"
  by (simp_all add: piped_subject_lines_def string_eval)

lemma piped_subject_parse:
  "GetFileHistory_parse ''b/a/f.kt'' piped_subject_lines =
     [entry_v2\<lparr>Path := ''b/a/f.kt''\<rparr>, entry_v1\<lparr>Path := ''b/a/f.kt''\<rparr>]"
  by (simp add: GetFileHistory_parse_def piped_subject_lines_def hist_init_def
      entry_v2_def entry_v1_def GetFileHistory_line_def flush_def string_eval Let_def)

text \<open>
  Claim C1 (rename tracking). The file \<^verbatim>\<open>a/f.kt\<close> is created (H1), modified (H2) and
  moved to \<^verbatim>\<open>b/a/f.kt\<close> (H3), and the subject of the commit that moves it is
  \<^verbatim>\<open>move a|b\<close>. The marker of that commit then has five fields, so no entry is pending
  when its rename line is read: the line is passed over and the cursor never switches.
  \<open>GetFileHistory\<close> returns two entries, not three, and both the modifying and the creating
  commit record the new name \<^verbatim>\<open>b/a/f.kt\<close> instead of \<^verbatim>\<open>a/f.kt\<close>.
\<close>

theorem GetFileHistory_piped_subject:
  "fst (GetFileHistory (output_world (Join piped_subject_lines NL)) ''/repo'' ''HEAD'' ''b/a/f.kt'') =
     Inr [\<lparr>Hash = ''H2'', Author = ''Test User'', Date = ''2024-01-02'', Subject = ''v2'',
           Path = ''b/a/f.kt''\<rparr>,
          \<lparr>Hash = ''H1'', Author = ''Test User'', Date = ''2024-01-01'', Subject = ''v1'',
           Path = ''b/a/f.kt''\<rparr>]"
proof -
  have "fst (GetFileHistory (output_world (Join piped_subject_lines NL)) ''/repo'' ''HEAD''
          ''b/a/f.kt'') =
        Inr (GetFileHistory_parse (TrimPrefix ''b/a/f.kt'' ''/'')
          (Split (Join piped_subject_lines NL) NL))"
    by (rule GetFileHistory_entries) (simp add: output_world_Command piped_subject_output)
  then show ?thesis
    by (simp add: piped_subject_output piped_subject_parse TrimPrefix_def HasPrefix_def
        entry_v2_def entry_v1_def)
qed

lemma output_world_history:
  assumes "TrimSpace out = out"
  shows "fst (GetFileHistory (output_world out) repoPath ''HEAD'' ''b/a/f.kt'') =
           Inr (GetFileHistory_parse ''b/a/f.kt'' (Split out NL))"
proof -
  have "fst (GetFileHistory (output_world out) repoPath ''HEAD'' ''b/a/f.kt'') =
          Inr (GetFileHistory_parse (TrimPrefix ''b/a/f.kt'' ''/'') (Split out NL))"
    by (rule GetFileHistory_entries) (simp add: output_world_Command assms)
  then show ?thesis by (simp add: TrimPrefix_def HasPrefix_def)
qed

lemma newer_piped_output:
  "TrimSpace (Join (newer_commit_lines @ piped_subject_lines) NL) =
     Join (newer_commit_lines @ piped_subject_lines) NL"
  "Split (Join (newer_commit_lines @ piped_subject_lines) NL) NL =
     newer_commit_lines @ piped_subject_lines"
  by (simp_all add: newer_commit_lines_def piped_subject_lines_def string_eval)

lemma newer_rest_output:
  "TrimSpace (Join (newer_commit_lines @ tl piped_subject_lines) NL) =
     Join (newer_commit_lines @ tl piped_subject_lines) NL"
  "Split (Join (newer_commit_lines @ tl piped_subject_lines) NL) NL =
     newer_commit_lines @ tl piped_subject_lines"
  by (simp_all add: newer_commit_lines_def piped_subject_lines_def string_eval)

lemma newer_piped_parse:
  "GetFileHistory_parse ''b/a/f.kt'' (newer_commit_lines @ piped_subject_lines) =
     [entry_v4, entry_v2\<lparr>Path := ''b/a/f.kt''\<rparr>, entry_v1\<lparr>Path := ''b/a/f.kt''\<rparr>]"
  by (simp add: GetFileHistory_parse_def newer_commit_lines_def piped_subject_lines_def
      hist_init_def entry_v4_def entry_v2_def entry_v1_def GetFileHistory_line_def flush_def
      string_eval Let_def)

lemma newer_rest_parse:
  "GetFileHistory_parse ''b/a/f.kt'' (newer_commit_lines @ tl piped_subject_lines) =
     [entry_v4, entry_v2, entry_v1]"
  by (simp add: GetFileHistory_parse_def newer_commit_lines_def piped_subject_lines_def
      hist_init_def entry_v4_def entry_v2_def entry_v1_def GetFileHistory_line_def flush_def
      string_eval Let_def)

lemma short_status_output:
  "TrimSpace (Join short_status_lines NL) = Join short_status_lines NL"
  "Split (Join short_status_lines NL) NL = short_status_lines"
  by (simp_all add: short_status_lines_def scenario_lines_def string_eval)

lemma piped_log_output:
  "TrimSpace (Join piped_log_lines NL) = Join piped_log_lines NL"
  "Split (Join piped_log_lines NL) NL = piped_log_lines"
  by (simp_all add: piped_log_lines_def string_eval)

text \<open>
  Claim C7 (malformed records), as the code has it. In \<open>GetLog\<close>, a line without exactly
  four fields is skipped: the result is the entries of the other lines, in their order.
  In \<open>GetFileHistory\<close>, a status line with fewer than two fields is skipped: the result is
  that of the output without the line. A marker line without exactly four fields gives no
  entry, but it closes the record before it, and the status lines after it, up to the
  next marker, are passed over: the result is the entries of the lines before it, then
  what the parser gives from the next marker on, starting at the cursor reached. In each
  case the rest of the output is processed and a sequence is returned, not an error.
\<close>

theorem malformed_lines_tolerated:
  "(fst (Command w repoPath (GetLog_args (if revision = [] then ''HEAD'' else revision)))
      = Inr out \<and>
    Split out NL = xs @ [line] @ ys \<and> length (Split line PIPE) \<noteq> 4 \<longrightarrow>
      fst (GetLog w repoPath revision) = Inr (List.map_filter log_line (xs @ ys))) \<and>
   (fst (Command w repoPath
           (GetFileHistory_args (if revision = [] then ''HEAD'' else revision)
              (TrimPrefix path ''/''))) = Inr out' \<and>
    Split out' NL = xs @ [line] @ ys \<and>
    \<not> HasPrefix line ''__GB__'' \<and> length (Split line TAB) < 2 \<longrightarrow>
      fst (GetFileHistory w repoPath revision path) =
        Inr (GetFileHistory_parse (TrimPrefix path ''/'') (xs @ ys))) \<and>
   (fst (Command w repoPath
           (GetFileHistory_args (if revision = [] then ''HEAD'' else revision)
              (TrimPrefix path ''/''))) = Inr out' \<and>
    Split out' NL = xs @ [line] @ ys \<and>
    HasPrefix line ''__GB__'' \<and> length (Split (TrimPrefix line ''__GB__'') PIPE) \<noteq> 4 \<longrightarrow>
      fst (GetFileHistory w repoPath revision path) =
        Inr (GetFileHistory_parse (TrimPrefix path ''/'') xs @
             GetFileHistory_parse (cursor_after (TrimPrefix path ''/'') xs)
               (dropWhile (\<lambda>l. \<not> HasPrefix l ''__GB__'') ys)))"
proof (intro conjI impI)
  assume a: "fst (Command w repoPath (GetLog_args (if revision = [] then ''HEAD'' else revision)))
      = Inr out \<and>
    Split out NL = xs @ [line] @ ys \<and> length (Split line PIPE) \<noteq> 4"
  then have "log_line line = None" by (simp add: log_line_def Let_def)
  then have "List.map_filter log_line (xs @ [line] @ ys) = List.map_filter log_line (xs @ ys)"
    by (simp add: List.map_filter_def)
  with a show "fst (GetLog w repoPath revision) = Inr (List.map_filter log_line (xs @ ys))"
    using GetLog_entries[of w repoPath revision out] by simp
next
  assume a: "fst (Command w repoPath
           (GetFileHistory_args (if revision = [] then ''HEAD'' else revision)
              (TrimPrefix path ''/''))) = Inr out' \<and>
    Split out' NL = xs @ [line] @ ys \<and>
    \<not> HasPrefix line ''__GB__'' \<and> length (Split line TAB) < 2"
  then have "GetFileHistory_parse (TrimPrefix path ''/'') (xs @ [line] @ ys) =
               GetFileHistory_parse (TrimPrefix path ''/'') (xs @ ys)"
    by (simp add: GetFileHistory_parse_def line_short_status)
  with a show "fst (GetFileHistory w repoPath revision path) =
        Inr (GetFileHistory_parse (TrimPrefix path ''/'') (xs @ ys))"
    using GetFileHistory_entries[of w repoPath revision path out'] by simp
next
  assume a: "fst (Command w repoPath
           (GetFileHistory_args (if revision = [] then ''HEAD'' else revision)
              (TrimPrefix path ''/''))) = Inr out' \<and>
    Split out' NL = xs @ [line] @ ys \<and>
    HasPrefix line ''__GB__'' \<and> length (Split (TrimPrefix line ''__GB__'') PIPE) \<noteq> 4"
  then have "GetFileHistory_parse (TrimPrefix path ''/'') (xs @ [line] @ ys) =
               GetFileHistory_parse (TrimPrefix path ''/'') xs @
               GetFileHistory_parse (cursor_after (TrimPrefix path ''/'') xs) ys"
    using parse_malformed_marker by blast
  also have "GetFileHistory_parse (cursor_after (TrimPrefix path ''/'') xs) ys =
               GetFileHistory_parse (cursor_after (TrimPrefix path ''/'') xs)
                 (dropWhile (\<lambda>l. \<not> HasPrefix l ''__GB__'') ys)"
    by (rule parse_drops_leading_status)
  finally show "fst (GetFileHistory w repoPath revision path) =
        Inr (GetFileHistory_parse (TrimPrefix path ''/'') xs @
             GetFileHistory_parse (cursor_after (TrimPrefix path ''/'') xs)
               (dropWhile (\<lambda>l. \<not> HasPrefix l ''__GB__'') ys))"
    using a GetFileHistory_entries[of w repoPath revision path out'] by simp
qed

theorem malformed_lines_tolerated_witness:
  "fst (GetLog (output_world (Join piped_log_lines NL)) ''/repo'' ''HEAD'') =
     Inr [\<lparr>Hash = ''H3'', Author = ''Test User'', Date = ''2024-01-03'', Subject = ''v3''\<rparr>,
          \<lparr>Hash = ''H1'', Author = ''Test User'', Date = ''2024-01-01'', Subject = ''v1''\<rparr>] \<and>
   fst (GetFileHistory (output_world (Join short_status_lines NL)) ''/repo'' ''HEAD'' ''b/a/f.kt'') =
     Inr [entry_v3, entry_v2, entry_v1] \<and>
   fst (GetFileHistory (output_world (Join (newer_commit_lines @ piped_subject_lines) NL))
          ''/repo'' ''HEAD'' ''b/a/f.kt'') =
     Inr [entry_v4,
          \<lparr>Hash = ''H2'', Author = ''Test User'', Date = ''2024-01-02'', Subject = ''v2'',
           Path = ''b/a/f.kt''\<rparr>,
          \<lparr>Hash = ''H1'', Author = ''Test User'', Date = ''2024-01-01'', Subject = ''v1'',
           Path = ''b/a/f.kt''\<rparr>]"
proof -
  let ?bad = "''H2|Test User|2024-01-02|a|b''"
  let ?m = "''__GB__H3|Test User|2024-01-03|move a|b''"
  let ?w1 = "output_world (Join piped_log_lines NL)"
  let ?w2 = "output_world (Join short_status_lines NL)"
  let ?w3 = "output_world (Join (newer_commit_lines @ piped_subject_lines) NL)"
  have a1: "fst (Command ?w1 ''/repo'' (GetLog_args (if ''HEAD'' = [] then ''HEAD'' else ''HEAD'')))
              = Inr (Join piped_log_lines NL)"
    by (simp add: output_world_Command piped_log_output)
  have a2: "Split (Join piped_log_lines NL) NL =
              [''H3|Test User|2024-01-03|v3''] @ [?bad] @ [''H1|Test User|2024-01-01|v1'']"
    unfolding piped_log_output by (simp add: piped_log_lines_def)
  have a3: "length (Split ?bad PIPE) \<noteq> 4"
    by (simp add: string_eval)
  have a4: "List.map_filter log_line
              ([''H3|Test User|2024-01-03|v3''] @ [''H1|Test User|2024-01-01|v1'']) =
     [\<lparr>Hash = ''H3'', Author = ''Test User'', Date = ''2024-01-03'', Subject = ''v3''\<rparr>,
      \<lparr>Hash = ''H1'', Author = ''Test User'', Date = ''2024-01-01'', Subject = ''v1''\<rparr>]"
    by (simp add: List.map_filter_def log_line_def string_eval)
  have r1: "fst (GetLog ?w1 ''/repo'' ''HEAD'') =
     Inr [\<lparr>Hash = ''H3'', Author = ''Test User'', Date = ''2024-01-03'', Subject = ''v3''\<rparr>,
          \<lparr>Hash = ''H1'', Author = ''Test User'', Date = ''2024-01-01'', Subject = ''v1''\<rparr>]"
    unfolding a4[symmetric]
    by (rule malformed_lines_tolerated[THEN conjunct1, rule_format, OF conjI[OF a1 conjI[OF a2 a3]]])
  have b1: "fst (Command ?w2 ''/repo''
                 (GetFileHistory_args (if ''HEAD'' = [] then ''HEAD'' else ''HEAD'')
                    (TrimPrefix ''b/a/f.kt'' ''/''))) = Inr (Join short_status_lines NL)"
    by (simp add: output_world_Command short_status_output)
  have b2: "Split (Join short_status_lines NL) NL =
              take 1 scenario_lines @ [''no fields''] @ drop 1 scenario_lines"
    unfolding short_status_output by (simp add: short_status_lines_def)
  have b3: "\<not> HasPrefix ''no fields'' ''__GB__''" "length (Split ''no fields'' TAB) < 2"
    by (simp_all add: string_eval)
  have b4: "GetFileHistory_parse (TrimPrefix ''b/a/f.kt'' ''/'')
              (take 1 scenario_lines @ drop 1 scenario_lines) = [entry_v3, entry_v2, entry_v1]"
    using scenario_parse by (simp add: TrimPrefix_def HasPrefix_def scenario_history_def)
  have r2: "fst (GetFileHistory ?w2 ''/repo'' ''HEAD'' ''b/a/f.kt'') =
              Inr [entry_v3, entry_v2, entry_v1]"
    unfolding b4[symmetric]
    by (rule malformed_lines_tolerated[THEN conjunct2, THEN conjunct1, rule_format,
          OF conjI[OF b1 conjI[OF b2 conjI[OF b3]]]])
  have c1: "fst (Command ?w3 ''/repo''
                 (GetFileHistory_args (if ''HEAD'' = [] then ''HEAD'' else ''HEAD'')
                    (TrimPrefix ''b/a/f.kt'' ''/''))) =
              Inr (Join (newer_commit_lines @ piped_subject_lines) NL)"
    by (simp add: output_world_Command newer_piped_output)
  have c2: "Split (Join (newer_commit_lines @ piped_subject_lines) NL) NL =
              newer_commit_lines @ [?m] @ tl piped_subject_lines"
    unfolding newer_piped_output by (simp add: piped_subject_lines_def)
  have c3: "HasPrefix ?m ''__GB__''" "length (Split (TrimPrefix ?m ''__GB__'') PIPE) \<noteq> 4"
    by (simp_all add: string_eval)
  have c4: "GetFileHistory_parse (TrimPrefix ''b/a/f.kt'' ''/'') newer_commit_lines @
            GetFileHistory_parse (cursor_after (TrimPrefix ''b/a/f.kt'' ''/'') newer_commit_lines)
              (dropWhile (\<lambda>l. \<not> HasPrefix l ''__GB__'') (tl piped_subject_lines)) =
            [entry_v4,
             \<lparr>Hash = ''H2'', Author = ''Test User'', Date = ''2024-01-02'', Subject = ''v2'',
              Path = ''b/a/f.kt''\<rparr>,
             \<lparr>Hash = ''H1'', Author = ''Test User'', Date = ''2024-01-01'', Subject = ''v1'',
              Path = ''b/a/f.kt''\<rparr>]"
    by (simp add: GetFileHistory_parse_def cursor_after_def newer_commit_lines_def
        piped_subject_lines_def hist_init_def entry_v4_def GetFileHistory_line_def flush_def
        string_eval Let_def)
  have r3: "fst (GetFileHistory ?w3 ''/repo'' ''HEAD'' ''b/a/f.kt'') =
     Inr [entry_v4,
          \<lparr>Hash = ''H2'', Author = ''Test User'', Date = ''2024-01-02'', Subject = ''v2'',
           Path = ''b/a/f.kt''\<rparr>,
          \<lparr>Hash = ''H1'', Author = ''Test User'', Date = ''2024-01-01'', Subject = ''v1'',
           Path = ''b/a/f.kt''\<rparr>]"
    unfolding c4[symmetric]
    by (rule malformed_lines_tolerated[THEN conjunct2, THEN conjunct2, rule_format,
          OF conjI[OF c1 conjI[OF c2 conjI[OF c3]]]])
  show ?thesis using r1 r2 r3 by (intro conjI)
qed

text \<open>
  Claim C7 as stated, that a malformed marker line of the history output is skipped like
  the other malformed lines, fails on the output with the marker of the moving commit
  (five fields): with the line, the modifying and the creating commit record
  \<^verbatim>\<open>b/a/f.kt\<close>; on the output without the line, the rename line falls to the record
  of the newer commit, the cursor switches, and they record \<^verbatim>\<open>a/f.kt\<close>.
\<close>

theorem malformed_marker_counterexample:
  "HasPrefix ''__GB__H3|Test User|2024-01-03|move a|b'' ''__GB__'' \<and>
   length (Split (TrimPrefix ''__GB__H3|Test User|2024-01-03|move a|b'' ''__GB__'') PIPE) \<noteq> 4 \<and>
   newer_commit_lines @ piped_subject_lines =
     newer_commit_lines @ [''__GB__H3|Test User|2024-01-03|move a|b''] @ tl piped_subject_lines \<and>
   fst (GetFileHistory (output_world (Join (newer_commit_lines @ piped_subject_lines) NL))
          ''/repo'' ''HEAD'' ''b/a/f.kt'') =
     Inr [entry_v4,
          \<lparr>Hash = ''H2'', Author = ''Test User'', Date = ''2024-01-02'', Subject = ''v2'',
           Path = ''b/a/f.kt''\<rparr>,
          \<lparr>Hash = ''H1'', Author = ''Test User'', Date = ''2024-01-01'', Subject = ''v1'',
           Path = ''b/a/f.kt''\<rparr>] \<and>
   fst (GetFileHistory (output_world (Join (newer_commit_lines @ tl piped_subject_lines) NL))
          ''/repo'' ''HEAD'' ''b/a/f.kt'') =
     Inr [entry_v4,
          \<lparr>Hash = ''H2'', Author = ''Test User'', Date = ''2024-01-02'', Subject = ''v2'',
           Path = ''a/f.kt''\<rparr>,
          \<lparr>Hash = ''H1'', Author = ''Test User'', Date = ''2024-01-01'', Subject = ''v1'',
           Path = ''a/f.kt''\<rparr>] \<and>
   fst (GetFileHistory (output_world (Join (newer_commit_lines @ piped_subject_lines) NL))
          ''/repo'' ''HEAD'' ''b/a/f.kt'') \<noteq>
   fst (GetFileHistory (output_world (Join (newer_commit_lines @ tl piped_subject_lines) NL))
          ''/repo'' ''HEAD'' ''b/a/f.kt'')"
proof -
  have m: "HasPrefix ''__GB__H3|Test User|2024-01-03|move a|b'' ''__GB__''"
    "length (Split (TrimPrefix ''__GB__H3|Test User|2024-01-03|move a|b'' ''__GB__'') PIPE) \<noteq> 4"
    "newer_commit_lines @ piped_subject_lines =
       newer_commit_lines @ [''__GB__H3|Test User|2024-01-03|move a|b''] @ tl piped_subject_lines"
    by (simp_all add: piped_subject_lines_def string_eval)
  have w1: "fst (GetFileHistory (output_world (Join (newer_commit_lines @ piped_subject_lines) NL))
          ''/repo'' ''HEAD'' ''b/a/f.kt'') =
     Inr [entry_v4,
          \<lparr>Hash = ''H2'', Author = ''Test User'', Date = ''2024-01-02'', Subject = ''v2'',
           Path = ''b/a/f.kt''\<rparr>,
          \<lparr>Hash = ''H1'', Author = ''Test User'', Date = ''2024-01-01'', Subject = ''v1'',
           Path = ''b/a/f.kt''\<rparr>]"
    by (simp add: output_world_history newer_piped_output newer_piped_parse entry_v2_def
        entry_v1_def)
  have w2: "fst (GetFileHistory (output_world (Join (newer_commit_lines @ tl piped_subject_lines) NL))
          ''/repo'' ''HEAD'' ''b/a/f.kt'') =
     Inr [entry_v4,
          \<lparr>Hash = ''H2'', Author = ''Test User'', Date = ''2024-01-02'', Subject = ''v2'',
           Path = ''a/f.kt''\<rparr>,
          \<lparr>Hash = ''H1'', Author = ''Test User'', Date = ''2024-01-01'', Subject = ''v1'',
           Path = ''a/f.kt''\<rparr>]"
    by (simp add: output_world_history newer_rest_output newer_rest_parse entry_v2_def
        entry_v1_def)
  show ?thesis unfolding w1 w2 using m by simp
qed

text \<open>
  Claim C8 (bounded windows). \<open>GetLog\<close> makes one invocation of the tool, with the limit
  \<^verbatim>\<open>-n 20\<close>; \<open>GetFileHistory\<close> makes one, with the limit \<^verbatim>\<open>-n 50\<close>. The sequence that
  \<open>GetLog\<close> returns has no more entries than the output has lines, and the one that
  \<open>GetFileHistory\<close> returns has no more entries than the output has marker lines: no
  more than the records of the window that the tool printed.
\<close>

theorem query_windows:
  "snd (GetLog w repoPath revision) =
     w\<lparr>calls := calls w @
        [(repoPath, [''log'', (if revision = [] then ''HEAD'' else revision),
                     ''--pretty=format:%H|%an|%ad|%s'', ''--date=short'', ''-n'', ''20''])]\<rparr> \<and>
   snd (GetFileHistory w repoPath revision path) =
     w\<lparr>calls := calls w @
        [(repoPath, [''log'', (if revision = [] then ''HEAD'' else revision),
                     ''--pretty=format:__GB__%H|%an|%ad|%s'', ''--date=short'', ''-n'', ''50'',
                     ''--follow'', ''--name-status'', ''--'', TrimPrefix path ''/''])]\<rparr> \<and>
   (fst (Command w repoPath (GetLog_args (if revision = [] then ''HEAD'' else revision)))
      = Inr out \<longrightarrow>
      (\<exists>es. fst (GetLog w repoPath revision) = Inr es \<and>
            length es \<le> length (Split out NL))) \<and>
   (fst (Command w repoPath
           (GetFileHistory_args (if revision = [] then ''HEAD'' else revision)
              (TrimPrefix path ''/''))) = Inr out' \<longrightarrow>
      (\<exists>es. fst (GetFileHistory w repoPath revision path) = Inr es \<and>
            length es \<le> length (filter (\<lambda>l. HasPrefix l ''__GB__'') (Split out' NL))))"
proof (intro conjI impI)
  show "snd (GetLog w repoPath revision) =
     w\<lparr>calls := calls w @
        [(repoPath, [''log'', (if revision = [] then ''HEAD'' else revision),
                     ''--pretty=format:%H|%an|%ad|%s'', ''--date=short'', ''-n'', ''20''])]\<rparr>"
    by (simp add: GetLog_world logged_def GetLog_args_def)
  show "snd (GetFileHistory w repoPath revision path) =
     w\<lparr>calls := calls w @
        [(repoPath, [''log'', (if revision = [] then ''HEAD'' else revision),
                     ''--pretty=format:__GB__%H|%an|%ad|%s'', ''--date=short'', ''-n'', ''50'',
                     ''--follow'', ''--name-status'', ''--'', TrimPrefix path ''/''])]\<rparr>"
    by (simp add: GetFileHistory_world logged_def GetFileHistory_args_def)
next
  assume "fst (Command w repoPath (GetLog_args (if revision = [] then ''HEAD'' else revision)))
      = Inr out"
  then show "\<exists>es. fst (GetLog w repoPath revision) = Inr es \<and>
            length es \<le> length (Split out NL)"
    using length_GetLog_foldl[of "[]" "Split out NL"] by (simp add: GetLog_result)
next
  assume "fst (Command w repoPath
           (GetFileHistory_args (if revision = [] then ''HEAD'' else revision)
              (TrimPrefix path ''/''))) = Inr out'"
  from GetFileHistory_result[OF this]
  have res: "fst (GetFileHistory w repoPath revision path) =
           Inr (if out' = [] then []
                else GetFileHistory_parse (TrimPrefix path ''/'') (Split out' NL))" .
  have "length (GetFileHistory_parse (TrimPrefix path ''/'') (Split out' NL)) =
          length (List.map_filter marker_log (Split out' NL))"
    using GetFileHistory_parse_logs[of "TrimPrefix path ''/''" "Split out' NL"]
    by (metis length_map)
  then have "length (GetFileHistory_parse (TrimPrefix path ''/'') (Split out' NL)) \<le>
          length (filter (\<lambda>l. HasPrefix l ''__GB__'') (Split out' NL))"
    using length_map_filter_markers[of "Split out' NL"] by simp
  then show "\<exists>es. fst (GetFileHistory w repoPath revision path) = Inr es \<and>
            length es \<le> length (filter (\<lambda>l. HasPrefix l ''__GB__'') (Split out' NL))"
    unfolding res by simp
qed

theorem query_windows_witness:
  "fst (Command (scenario_world []) ''/repo'' (GetLog_args ''HEAD''))
     = Inr (Join scenario_log_lines NL) \<and>
   length (Split (Join scenario_log_lines NL) NL) = 3 \<and>
   (\<exists>es. fst (GetLog (scenario_world []) ''/repo'' []) = Inr es \<and> length es \<le> 3) \<and>
   fst (Command (scenario_world []) ''/repo'' (GetFileHistory_args ''HEAD'' ''b/a/f.kt''))
     = Inr (Join scenario_lines NL) \<and>
   length (filter (\<lambda>l. HasPrefix l ''__GB__'') (Split (Join scenario_lines NL) NL)) = 3 \<and>
   (\<exists>es. fst (GetFileHistory (scenario_world []) ''/repo'' [] ''b/a/f.kt'') = Inr es \<and>
         length es \<le> 3)"
proof -
  have d1: "fst (Command (scenario_world []) ''/repo'' (GetLog_args ''HEAD''))
              = Inr (Join scenario_log_lines NL)"
    by (simp add: Command_def scenario_world_def scenario_tool_def tool_ok_def
        GetLog_args_def GetFileHistory_args_def scenario_log_lines_def string_eval)
  have d2: "length (Split (Join scenario_log_lines NL) NL) = 3"
    by (simp add: scenario_log_lines_def string_eval)
  have e1: "fst (Command (scenario_world []) ''/repo'' (GetFileHistory_args ''HEAD'' ''b/a/f.kt''))
              = Inr (Join scenario_lines NL)"
    by (rule scenario_Command_history)
  have e2: "length (filter (\<lambda>l. HasPrefix l ''__GB__'') (Split (Join scenario_lines NL) NL)) = 3"
    unfolding scenario_split by (simp add: scenario_lines_def string_eval)
  have "(\<exists>es. fst (GetLog (scenario_world []) ''/repo'' []) = Inr es \<and>
            length es \<le> length (Split (Join scenario_log_lines NL) NL)) \<and>
        (\<exists>es. fst (GetFileHistory (scenario_world []) ''/repo'' [] ''b/a/f.kt'') = Inr es \<and>
            length es \<le> length (filter (\<lambda>l. HasPrefix l ''__GB__'')
              (Split (Join scenario_lines NL) NL)))"
    using query_windows[of "scenario_world []" "''/repo''" "[]" "''b/a/f.kt''"
        "Join scenario_log_lines NL" "Join scenario_lines NL"] d1 e1
    by (simp add: TrimPrefix_def HasPrefix_def)
  then show ?thesis unfolding d2 e2 using d1 e1 by simp
qed

text \<open>The result of \<open>GetFileHistory\<close> depends on the world only through the answer to its query.\<close>

lemma Command_answer:
  "git_tool w' repoPath args = git_tool w repoPath args \<Longrightarrow>
   fst (Command w' repoPath args) = fst (Command w repoPath args)"
  by (simp add: Command_def Let_def split: option.split)

lemma GetFileHistory_answer:
  assumes "git_tool w' repoPath
             (GetFileHistory_args (if revision = [] then ''HEAD'' else revision)
                (TrimPrefix path ''/'')) =
           git_tool w repoPath
             (GetFileHistory_args (if revision = [] then ''HEAD'' else revision)
                (TrimPrefix path ''/''))"
  shows "fst (GetFileHistory w' repoPath revision path) = fst (GetFileHistory w repoPath revision path)"
proof -
  let ?args = "GetFileHistory_args (if revision = [] then ''HEAD'' else revision) (TrimPrefix path ''/'')"
  obtain res where c: "Command w repoPath ?args = (res, logged w repoPath ?args)"
    using Command_eq by blast
  then have "fst (Command w' repoPath ?args) = res"
    using Command_answer[OF assms] by simp
  then have c': "Command w' repoPath ?args = (res, logged w' repoPath ?args)"
    by (rule Command_eq)
  show ?thesis
    by (cases res) (simp_all add: GetFileHistory_def Let_def c c' del: One_nat_def)
qed

text \<open>
  Claim C9 (determinism). On an unchanged repository, that is, with the same tool, a
  second invocation of \<open>GetFileHistory\<close> with the same inputs, made after the first,
  returns the same result. More generally the result is the same in any two worlds in
  which the tool answers the history query alike: it is a function of the inputs and of
  that output only.
\<close>

theorem GetFileHistory_deterministic:
  "fst (GetFileHistory (snd (GetFileHistory w repoPath revision path)) repoPath revision path) =
     fst (GetFileHistory w repoPath revision path) \<and>
   (git_tool w' repoPath
      (GetFileHistory_args (if revision = [] then ''HEAD'' else revision)
         (TrimPrefix path ''/'')) =
    git_tool w repoPath
      (GetFileHistory_args (if revision = [] then ''HEAD'' else revision)
         (TrimPrefix path ''/'')) \<longrightarrow>
    fst (GetFileHistory w' repoPath revision path) = fst (GetFileHistory w repoPath revision path))"
proof (intro conjI impI)
  show "fst (GetFileHistory (snd (GetFileHistory w repoPath revision path)) repoPath revision path) =
     fst (GetFileHistory w repoPath revision path)"
    unfolding GetFileHistory_world by (rule GetFileHistory_tool) simp
next
  assume "git_tool w' repoPath
      (GetFileHistory_args (if revision = [] then ''HEAD'' else revision)
         (TrimPrefix path ''/'')) =
    git_tool w repoPath
      (GetFileHistory_args (if revision = [] then ''HEAD'' else revision)
         (TrimPrefix path ''/''))"
  then show "fst (GetFileHistory w' repoPath revision path) = fst (GetFileHistory w repoPath revision path)"
    by (rule GetFileHistory_answer)
qed

theorem GetFileHistory_deterministic_witness:
  "git_tool (scenario_world [[''show'', ''H2'', ''--'', ''a/f.kt'']]) ''/repo''
      (GetFileHistory_args ''HEAD'' ''b/a/f.kt'') =
   git_tool (scenario_world []) ''/repo'' (GetFileHistory_args ''HEAD'' ''b/a/f.kt'') \<and>
   fst (GetFileHistory (scenario_world [[''show'', ''H2'', ''--'', ''a/f.kt'']])
          ''/repo'' ''HEAD'' ''b/a/f.kt'') = Inr scenario_history \<and>
   fst (GetFileHistory (snd (GetFileHistory (scenario_world []) ''/repo'' ''HEAD'' ''b/a/f.kt''))
          ''/repo'' ''HEAD'' ''b/a/f.kt'') = Inr scenario_history"
proof -
  let ?f = "[[''show'', ''H2'', ''--'', ''a/f.kt'']]"
  have t: "git_tool (scenario_world ?f) ''/repo'' (GetFileHistory_args ''HEAD'' ''b/a/f.kt'') =
           git_tool (scenario_world []) ''/repo'' (GetFileHistory_args ''HEAD'' ''b/a/f.kt'')"
    by (simp add: scenario_world_def scenario_tool_def GetFileHistory_args_def)
  have h: "fst (GetFileHistory (scenario_world []) ''/repo'' ''HEAD'' ''b/a/f.kt'')
             = Inr scenario_history"
    by (rule scenario_GetFileHistory) simp
  show ?thesis
    using t h GetFileHistory_deterministic[of "scenario_world []" "''/repo''" "''HEAD''"
        "''b/a/f.kt''" "scenario_world ?f"]
    by (simp add: TrimPrefix_def HasPrefix_def)
qed

section \<open>The path-at-commit resolver\<close>

text \<open>
  Claim C5 (the direct hit). When the diff of the path at the commit is not empty after
  trimming, \<open>resolveDiffWithFallback\<close> returns that diff unchanged with the input path as
  the resolved path, and the only invocation of the tool it has made is that one
  \<^verbatim>\<open>show\<close>: the history is not looked up.
\<close>

theorem resolveDiffWithFallback_direct_hit:
  assumes "fst (GetCommitFileDiff w repoPath hash path) = Inr diff"
    and "TrimSpace diff \<noteq> []"
  shows "resolveDiffWithFallback w repoPath hash path =
           (Inr (diff, path),
            w\<lparr>calls := calls w @ [(repoPath, [''show'', hash, ''--'', TrimPrefix path ''/''])]\<rparr>)"
  using assms(2)
  by (simp add: resolveDiffWithFallback_def GetCommitFileDiff_eq[OF assms(1)] logged_def)

theorem resolveDiffWithFallback_direct_hit_witness:
  "fst (GetCommitFileDiff (scenario_world []) ''/repo'' ''H3'' ''b/a/f.kt'')
     = Inr ''diff --git a/a/f.kt b/b/a/f.kt'' \<and>
   TrimSpace ''diff --git a/a/f.kt b/b/a/f.kt'' \<noteq> [] \<and>
   resolveDiffWithFallback (scenario_world []) ''/repo'' ''H3'' ''b/a/f.kt'' =
     (Inr (''diff --git a/a/f.kt b/b/a/f.kt'', ''b/a/f.kt''),
      \<lparr>git_tool = scenario_tool [], calls = [(''/repo'', [''show'', ''H3'', ''--'', ''b/a/f.kt''])]\<rparr>)"
proof -
  have d: "fst (GetCommitFileDiff (scenario_world []) ''/repo'' ''H3'' ''b/a/f.kt'')
             = Inr ''diff --git a/a/f.kt b/b/a/f.kt''"
    using scenario_show(3)[of "[]"] by simp
  show ?thesis
    using d TrimSpace_diff3_nonempty
      resolveDiffWithFallback_direct_hit[OF d TrimSpace_diff3_nonempty]
    by (simp add: scenario_world_def TrimPrefix_def HasPrefix_def)
qed

text \<open>
  Claim C2 (the fallback). When the diff of the current path at the commit is empty after
  trimming, and the first entry of the history of the current path from \<^verbatim>\<open>HEAD\<close> that has
  the commit's hash and another recorded path is \<open>entry\<close>, and the tool gives a diff for
  that recorded path at the commit, then \<open>resolveDiffWithFallback\<close> returns that diff,
  what \<open>GetCommitFileDiff\<close> gives for the historical name, and the historical name as the
  resolved path.
\<close>

theorem resolveDiffWithFallback_historical_path:
  assumes "fst (GetCommitFileDiff w repoPath hash path) = Inr diff"
    and "TrimSpace diff = []"
    and "fst (GetFileHistory w repoPath ''HEAD'' path) = Inr history"
    and "find (\<lambda>entry. Hash entry = hash \<and> Path entry \<noteq> path) history = Some entry"
    and "fst (GetCommitFileDiff w repoPath hash (Path entry)) = Inr retryDiff"
  shows "fst (resolveDiffWithFallback w repoPath hash path) = Inr (retryDiff, Path entry)"
  using resolveDiffWithFallback_scan[OF assms(1-4)] assms(5) by simp

theorem resolveDiffWithFallback_historical_path_witness:
  "fst (GetCommitFileDiff (scenario_world []) ''/repo'' ''H2'' ''b/a/f.kt'') = Inr [] \<and>
   TrimSpace [] = [] \<and>
   fst (GetFileHistory (scenario_world []) ''/repo'' ''HEAD'' ''b/a/f.kt'') = Inr scenario_history \<and>
   find (\<lambda>entry. Hash entry = ''H2'' \<and> Path entry \<noteq> ''b/a/f.kt'') scenario_history
     = Some entry_v2 \<and>
   Path entry_v2 = ''a/f.kt'' \<and>
   fst (GetCommitFileDiff (scenario_world []) ''/repo'' ''H2'' ''a/f.kt'')
     = Inr ''diff --git a/a/f.kt b/a/f.kt'' \<and>
   fst (resolveDiffWithFallback (scenario_world []) ''/repo'' ''H2'' ''b/a/f.kt'')
     = Inr (''diff --git a/a/f.kt b/a/f.kt'', ''a/f.kt'')"
proof -
  have d: "fst (GetCommitFileDiff (scenario_world []) ''/repo'' ''H2'' ''b/a/f.kt'') = Inr []"
    using scenario_show(1)[of "[]"] by simp
  have h: "fst (GetFileHistory (scenario_world []) ''/repo'' ''HEAD'' ''b/a/f.kt'')
             = Inr scenario_history"
    by (rule scenario_GetFileHistory) simp
  have f: "find (\<lambda>entry. Hash entry = ''H2'' \<and> Path entry \<noteq> ''b/a/f.kt'') scenario_history
             = Some entry_v2"
    by (simp add: scenario_history_def entry_v3_def entry_v2_def)
  have p: "Path entry_v2 = ''a/f.kt''"
    by (simp add: entry_v2_def)
  have r: "fst (GetCommitFileDiff (scenario_world []) ''/repo'' ''H2'' (Path entry_v2))
             = Inr ''diff --git a/a/f.kt b/a/f.kt''"
    using scenario_show(2)[of "[]"] by (simp add: p)
  show ?thesis
    using d TrimSpace_Nil h f p r
      resolveDiffWithFallback_historical_path[OF d TrimSpace_Nil h f r]
    by simp
qed

text \<open>
  Claim C3 (failures). A failure of the tool on the first fetch of the diff is returned
  as the error, and that fetch is the only invocation made: no fallback is attempted. A
  failure of the history lookup of the fallback, and a failure of the second fetch of the
  diff, are swallowed: the result is the first diff, which is the empty string, with the
  input path.
\<close>

theorem resolveDiffWithFallback_failures:
  "(fst (GetCommitFileDiff w repoPath hash path) = Inl err \<longrightarrow>
      resolveDiffWithFallback w repoPath hash path =
        (Inl err,
         w\<lparr>calls := calls w @ [(repoPath, [''show'', hash, ''--'', TrimPrefix path ''/''])]\<rparr>)) \<and>
   (fst (GetCommitFileDiff w repoPath hash path) = Inr diff \<and> TrimSpace diff = [] \<and>
    fst (GetFileHistory w repoPath ''HEAD'' path) = Inl historyErr \<longrightarrow>
      fst (resolveDiffWithFallback w repoPath hash path) = Inr (diff, path) \<and> diff = []) \<and>
   (fst (GetCommitFileDiff w repoPath hash path) = Inr diff \<and> TrimSpace diff = [] \<and>
    fst (GetFileHistory w repoPath ''HEAD'' path) = Inr history \<and>
    find (\<lambda>entry. Hash entry = hash \<and> Path entry \<noteq> path) history = Some entry \<and>
    fst (GetCommitFileDiff w repoPath hash (Path entry)) = Inl retryErr \<longrightarrow>
      fst (resolveDiffWithFallback w repoPath hash path) = Inr (diff, path) \<and> diff = [])"
proof (intro conjI impI)
  assume "fst (GetCommitFileDiff w repoPath hash path) = Inl err"
  from GetCommitFileDiff_eq[OF this]
  show "resolveDiffWithFallback w repoPath hash path =
          (Inl err,
           w\<lparr>calls := calls w @ [(repoPath, [''show'', hash, ''--'', TrimPrefix path ''/''])]\<rparr>)"
    by (simp add: resolveDiffWithFallback_def logged_def)
next
  assume a: "fst (GetCommitFileDiff w repoPath hash path) = Inr diff \<and> TrimSpace diff = [] \<and>
    fst (GetFileHistory w repoPath ''HEAD'' path) = Inl historyErr"
  let ?w1 = "logged w repoPath [''show'', hash, ''--'', TrimPrefix path ''/'']"
  have p: "GetCommitFileDiff w repoPath hash path = (Inr diff, ?w1)"
    by (rule GetCommitFileDiff_eq) (simp add: a)
  have "fst (GetFileHistory ?w1 repoPath ''HEAD'' path) = Inl historyErr"
    using a GetFileHistory_tool[of ?w1 w] by simp
  from GetFileHistory_eq[OF this]
  show "fst (resolveDiffWithFallback w repoPath hash path) = Inr (diff, path)"
    using a by (simp add: resolveDiffWithFallback_def p)
  show "diff = []"
    using a GetCommitFileDiff_trimmed[of w repoPath hash path diff] by simp
next
  assume a: "fst (GetCommitFileDiff w repoPath hash path) = Inr diff \<and> TrimSpace diff = [] \<and>
    fst (GetFileHistory w repoPath ''HEAD'' path) = Inr history \<and>
    find (\<lambda>entry. Hash entry = hash \<and> Path entry \<noteq> path) history = Some entry \<and>
    fst (GetCommitFileDiff w repoPath hash (Path entry)) = Inl retryErr"
  then have h: "fst (GetCommitFileDiff w repoPath hash path) = Inr diff" "TrimSpace diff = []"
    "fst (GetFileHistory w repoPath ''HEAD'' path) = Inr history"
    "find (\<lambda>entry. Hash entry = hash \<and> Path entry \<noteq> path) history = Some entry"
    and r: "fst (GetCommitFileDiff w repoPath hash (Path entry)) = Inl retryErr"
    by blast+
  show "fst (resolveDiffWithFallback w repoPath hash path) = Inr (diff, path)"
    unfolding resolveDiffWithFallback_scan[OF h] r by simp
  show "diff = []"
    using h(1,2) GetCommitFileDiff_trimmed[of w repoPath hash path diff] by simp
qed

theorem resolveDiffWithFallback_failures_witness:
  "fst (GetCommitFileDiff (scenario_world [[''show'', ''H2'', ''--'', ''b/a/f.kt'']])
         ''/repo'' ''H2'' ''b/a/f.kt'') = Inl ''exit status 128: fatal: bad revision'' \<and>
   resolveDiffWithFallback (scenario_world [[''show'', ''H2'', ''--'', ''b/a/f.kt'']])
         ''/repo'' ''H2'' ''b/a/f.kt'' =
     (Inl ''exit status 128: fatal: bad revision'',
      \<lparr>git_tool = scenario_tool [[''show'', ''H2'', ''--'', ''b/a/f.kt'']],
       calls = [(''/repo'', [''show'', ''H2'', ''--'', ''b/a/f.kt''])]\<rparr>) \<and>
   fst (GetFileHistory (scenario_world [GetFileHistory_args ''HEAD'' ''b/a/f.kt''])
         ''/repo'' ''HEAD'' ''b/a/f.kt'') = Inl ''exit status 128: fatal: bad revision'' \<and>
   fst (resolveDiffWithFallback (scenario_world [GetFileHistory_args ''HEAD'' ''b/a/f.kt''])
         ''/repo'' ''H2'' ''b/a/f.kt'') = Inr ([], ''b/a/f.kt'') \<and>
   fst (GetCommitFileDiff (scenario_world [[''show'', ''H2'', ''--'', ''a/f.kt'']])
         ''/repo'' ''H2'' (Path entry_v2)) = Inl ''exit status 128: fatal: bad revision'' \<and>
   fst (resolveDiffWithFallback (scenario_world [[''show'', ''H2'', ''--'', ''a/f.kt'']])
         ''/repo'' ''H2'' ''b/a/f.kt'') = Inr ([], ''b/a/f.kt'')"
proof -
  let ?f1 = "[[''show'', ''H2'', ''--'', ''b/a/f.kt'']]"
  let ?f2 = "[GetFileHistory_args ''HEAD'' ''b/a/f.kt'']"
  let ?f3 = "[[''show'', ''H2'', ''--'', ''a/f.kt'']]"
  let ?err = "''exit status 128: fatal: bad revision''"
  have a1: "fst (GetCommitFileDiff (scenario_world ?f1) ''/repo'' ''H2'' ''b/a/f.kt'') = Inl ?err"
    using scenario_show(1)[of ?f1] by simp
  have b1: "fst (GetCommitFileDiff (scenario_world ?f2) ''/repo'' ''H2'' ''b/a/f.kt'') = Inr []"
    using scenario_show(1)[of ?f2] by (simp add: GetFileHistory_args_def)
  have b2: "fst (GetFileHistory (scenario_world ?f2) ''/repo'' ''HEAD'' ''b/a/f.kt'') = Inl ?err"
    by (simp add: GetFileHistory_def Command_def scenario_world_def scenario_tool_def
        tool_failure_def string_eval Let_def)
  have c1: "fst (GetCommitFileDiff (scenario_world ?f3) ''/repo'' ''H2'' ''b/a/f.kt'') = Inr []"
    using scenario_show(1)[of ?f3] by simp
  have c2: "fst (GetFileHistory (scenario_world ?f3) ''/repo'' ''HEAD'' ''b/a/f.kt'')
              = Inr scenario_history"
    by (rule scenario_GetFileHistory) (simp add: GetFileHistory_args_def)
  have c3: "find (\<lambda>entry. Hash entry = ''H2'' \<and> Path entry \<noteq> ''b/a/f.kt'') scenario_history
              = Some entry_v2"
    by (simp add: scenario_history_def entry_v3_def entry_v2_def)
  have c4: "fst (GetCommitFileDiff (scenario_world ?f3) ''/repo'' ''H2'' (Path entry_v2)) = Inl ?err"
    using scenario_show(2)[of ?f3] by (simp add: entry_v2_def)
  have r1: "resolveDiffWithFallback (scenario_world ?f1) ''/repo'' ''H2'' ''b/a/f.kt'' =
     (Inl ?err, \<lparr>git_tool = scenario_tool ?f1,
                 calls = [(''/repo'', [''show'', ''H2'', ''--'', ''b/a/f.kt''])]\<rparr>)"
    using resolveDiffWithFallback_failures[of "scenario_world ?f1" "''/repo''" "''H2''"
        "''b/a/f.kt''" ?err] a1
    by (simp add: scenario_world_def TrimPrefix_def HasPrefix_def)
  have r2: "fst (resolveDiffWithFallback (scenario_world ?f2) ''/repo'' ''H2'' ''b/a/f.kt'')
              = Inr ([], ''b/a/f.kt'')"
    using resolveDiffWithFallback_failures[of "scenario_world ?f2" "''/repo''" "''H2''"
        "''b/a/f.kt''" _ "[]" ?err] b1 b2 TrimSpace_Nil
    by simp
  have r3: "fst (resolveDiffWithFallback (scenario_world ?f3) ''/repo'' ''H2'' ''b/a/f.kt'')
              = Inr ([], ''b/a/f.kt'')"
    using resolveDiffWithFallback_failures[of "scenario_world ?f3" "''/repo''" "''H2''"
        "''b/a/f.kt''" _ "[]" _ scenario_history entry_v2 ?err] c1 c2 c3 c4 TrimSpace_Nil
    by simp
  show ?thesis using a1 r1 b2 r2 c4 r3 by simp
qed

section \<open>The guard on requested paths\<close>

lemma normalizeRepoRelativePath_accepts:
  assumes "normalizeRepoRelativePath repoPath requestedPath = (path, True)"
  shows "path \<noteq> [] \<and> path \<noteq> ''.'' \<and> \<not> HasPrefix path ''../''"
  using assms by (auto simp: normalizeRepoRelativePath_def Let_def split: if_splits)

lemma normalizeRepoRelativePath_rejects_blank:
  assumes "set requestedPath \<subseteq> {CHR 0x09, CHR 0x0A, CHR 0x0B, CHR 0x0C, CHR 0x0D, CHR 0x20}"
  shows "normalizeRepoRelativePath repoPath requestedPath = ([], False)"
  by (simp add: normalizeRepoRelativePath_def TrimSpace_blank[OF assms] TrimPrefix_def
      HasPrefix_def)

text \<open>
  Claim C10 (the guard on paths). The requested path \<^verbatim>\<open>..\<close> cleans to \<^verbatim>\<open>..\<close>, which
  is the parent of the repository root; it is not \<^verbatim>\<open>.\<close>, not empty and does not begin
  with \<^verbatim>\<open>../\<close>, so \<open>normalizeRepoRelativePath\<close> accepts it and returns it.
\<close>

theorem normalizeRepoRelativePath_parent:
  "normalizeRepoRelativePath ''/repos/app1'' ''..'' = (''..'', True)"
  by (simp add: normalizeRepoRelativePath_def Clean_def ToSlash_def string_eval)

end
